theory Spec2Isabelle
  imports Complex_Main "HOL-Library.Char_ord" "HOL-Library.List_Lexorder" "HOL-Library.Option_ord"
    "HOL-Library.Multiset"
begin

section \<open>Data model (types/index.ts)\<close>

text \<open>
  A \<^verbatim>\<open>Record<string, string>\<close> is a list of key/value pairs. JavaScript strings are
  byte lists (UTF-8), numbers are integers: HTTP status codes and byte counts.
  An optional field (\<^verbatim>\<open>responseBody?\<close>) is absent (\<^verbatim>\<open>undefined\<close>) or defined, and a
  record read back from the store holds \<^verbatim>\<open>null\<close> where the column is NULL: such a field
  has the three values of \<open>optional\<close>. For \<^verbatim>\<open>error: string | null\<close>, \<open>None\<close> is
  \<^verbatim>\<open>null\<close>.
\<close>

type_synonym headers_t = "(string \<times> string) list"

datatype 'a optional = Undefined | Null | Defined 'a

record NetworkRequest =
  id_req :: string
  timestamp :: string
  method_req :: string
  url :: string
  headers :: headers_t
  type :: string
  status :: int
  responseHeaders :: headers_t
  responseSize :: int
  responseBody :: "string optional"
  body :: "string optional"
  encodedDataLength :: "int optional"
  error :: "string option"

record RequestFilter =
  urlPattern :: "string option"
  types :: "string list option"

section \<open>Request tracker (server/browser-monitor.ts)\<close>

text \<open>
  The constructor \<^verbatim>\<open>new RegExp(p)\<close> of the JavaScript runtime is a parameter of the
  model: \<open>None\<close> when it throws a SyntaxError, otherwise the predicate \<^verbatim>\<open>.test\<close>.
\<close>

type_synonym regexp_engine = "string \<Rightarrow> (string \<Rightarrow> bool) option"

text \<open>
  The state of a \<^verbatim>\<open>BrowserMonitor\<close> as far as network tracking goes.
  \<open>networkCallback\<close> says whether a callback is registered (the field is not null);
  \<open>delivered\<close> is the trace of the calls made to it, each with the record as it was at
  the call; \<open>warnings\<close> is the trace of \<^verbatim>\<open>console.warn\<close>.
\<close>

record BrowserMonitor =
  networkCallback :: bool
  networkRequests :: "string \<rightharpoonup> NetworkRequest"
  requestFilter :: RequestFilter
  delivered :: "NetworkRequest list"
  warnings :: "string list"

definition new_BrowserMonitor :: BrowserMonitor where
  "new_BrowserMonitor =
     \<lparr>networkCallback = False, networkRequests = Map.empty,
      requestFilter = \<lparr>urlPattern = None, types = None\<rparr>,
      delivered = [], warnings = []\<rparr>"

definition setNetworkCallback :: "BrowserMonitor \<Rightarrow> BrowserMonitor" where
  "setNetworkCallback m = m\<lparr>networkCallback := True\<rparr>"

definition setRequestFilter :: "RequestFilter \<Rightarrow> BrowserMonitor \<Rightarrow> BrowserMonitor" where
  "setRequestFilter f m =
     m\<lparr>requestFilter := \<lparr>urlPattern = urlPattern f, types = types f\<rparr>\<rparr>"

text \<open>
  \<^verbatim>\<open>shouldProcessRequest\<close>, lines 165-184. A string is truthy when it is neither null
  nor empty: the pattern \<open>Some (c # cs)\<close>. An array is truthy whenever it is not null.
  The result is the returned boolean and the lines written by \<^verbatim>\<open>console.warn\<close>.
\<close>

definition invalid_pattern_warning :: string where
  "invalid_pattern_warning = ''Invalid URL pattern:''"

definition truthy_string :: "string option \<Rightarrow> bool" where
  "truthy_string s = (case s of Some (c # cs) \<Rightarrow> True | _ \<Rightarrow> False)"

definition shouldProcessRequest ::
    "regexp_engine \<Rightarrow> RequestFilter \<Rightarrow> NetworkRequest \<Rightarrow> bool \<times> string list" where
  "shouldProcessRequest RegExp f request =
     (if \<not> truthy_string (urlPattern f) \<and> types f = None then (True, [])
      else (case urlPattern f of
              Some (c # cs) \<Rightarrow>
                (case RegExp (c # cs) of
                   Some test \<Rightarrow> (test (url request), [])
                 | None \<Rightarrow> (False, [invalid_pattern_warning]))
            | _ \<Rightarrow>
                (case types f of
                   Some ts \<Rightarrow> (type request \<in> set ts, [])
                 | None \<Rightarrow> (True, []))))"

text \<open>
  The tail shared by the three merging listeners:
  \<^verbatim>\<open>if (this.shouldProcessRequest(request) && this.networkCallback) this.networkCallback(request)\<close>.
  The filter is evaluated first, so its warning is written even without a callback.
\<close>

definition notify :: "regexp_engine \<Rightarrow> NetworkRequest \<Rightarrow> BrowserMonitor \<Rightarrow> BrowserMonitor" where
  "notify RegExp request m =
     (case shouldProcessRequest RegExp (requestFilter m) request of
        (ok, ws) \<Rightarrow>
          m\<lparr>delivered := (if ok \<and> networkCallback m then delivered m @ [request] else delivered m),
            warnings := warnings m @ ws\<rparr>)"

text \<open>The text \<^verbatim>\<open>'\<close>unknown error\<^verbatim>\<open>'\<close> of line 361, four CJK characters, as UTF-8 bytes.\<close>

definition unknown_error :: string where
  "unknown_error =
     [CHR 0xE6, CHR 0x9C, CHR 0xAA, CHR 0xE7, CHR 0x9F, CHR 0xA5,
      CHR 0xE9, CHR 0x94, CHR 0x99, CHR 0xE8, CHR 0xAF, CHR 0xAF]"

text \<open>
  The four listeners of \<^verbatim>\<open>setupNetworkListeners(Network, prefix)\<close>, lines 313-368.
  \<open>now\<close> is \<^verbatim>\<open>new Date().toISOString()\<close> at the time of the event.
\<close>

definition requestWillBeSent ::
    "string \<Rightarrow> string \<Rightarrow> string \<Rightarrow> string \<Rightarrow> string \<Rightarrow> headers_t \<Rightarrow> string
       \<Rightarrow> BrowserMonitor \<Rightarrow> BrowserMonitor" where
  "requestWillBeSent prefix now rid me u hs ty m =
     (let requestId = prefix @ rid;
          request = \<lparr>id_req = requestId, timestamp = now, method_req = me, url = u,
                     headers = hs, type = ty, status = 0, responseHeaders = [],
                     responseSize = 0, responseBody = Undefined, body = Undefined,
                     encodedDataLength = Undefined, error = Some []\<rparr>
      in m\<lparr>networkRequests := (networkRequests m)(requestId \<mapsto> request)\<rparr>)"

definition responseReceived ::
    "regexp_engine \<Rightarrow> string \<Rightarrow> string \<Rightarrow> int \<Rightarrow> headers_t
       \<Rightarrow> BrowserMonitor \<Rightarrow> BrowserMonitor" where
  "responseReceived RegExp prefix rid st rh m =
     (let requestId = prefix @ rid in
      case networkRequests m requestId of
        None \<Rightarrow> m
      | Some request \<Rightarrow>
          (let request' = request\<lparr>status := st, responseHeaders := rh\<rparr>
           in notify RegExp request'
                (m\<lparr>networkRequests := (networkRequests m)(requestId \<mapsto> request')\<rparr>)))"

definition loadingFinished ::
    "regexp_engine \<Rightarrow> string \<Rightarrow> string \<Rightarrow> int \<Rightarrow> BrowserMonitor \<Rightarrow> BrowserMonitor" where
  "loadingFinished RegExp prefix rid n m =
     (let requestId = prefix @ rid in
      case networkRequests m requestId of
        None \<Rightarrow> m
      | Some request \<Rightarrow>
          (let request' = request\<lparr>responseSize := n\<rparr>
           in notify RegExp request'
                (m\<lparr>networkRequests := (networkRequests m)(requestId \<mapsto> request')\<rparr>)))"

definition loadingFailed ::
    "regexp_engine \<Rightarrow> string \<Rightarrow> string \<Rightarrow> string \<Rightarrow> BrowserMonitor \<Rightarrow> BrowserMonitor" where
  "loadingFailed RegExp prefix rid errorText m =
     (let requestId = prefix @ rid in
      case networkRequests m requestId of
        None \<Rightarrow> m
      | Some request \<Rightarrow>
          (let request' = request\<lparr>error := Some (if errorText \<noteq> [] then errorText else unknown_error)\<rparr>
           in notify RegExp request'
                (m\<lparr>networkRequests := (networkRequests m)(requestId \<mapsto> request')\<rparr>)))"

text \<open>
  The event source: four kinds of protocol event, each with the request identifier
  first. A delivery is an event with the clock reading at its arrival; \<open>run\<close> hands
  the deliveries of one listener set to the listeners in arrival order.
\<close>

datatype event =
    RequestWillBeSent string string string headers_t string
  | ResponseReceived string int headers_t
  | LoadingFinished string int
  | LoadingFailed string string

fun requestId_of :: "event \<Rightarrow> string" where
  "requestId_of (RequestWillBeSent rid me u hs ty) = rid"
| "requestId_of (ResponseReceived rid st rh) = rid"
| "requestId_of (LoadingFinished rid n) = rid"
| "requestId_of (LoadingFailed rid errorText) = rid"

fun kind_of :: "event \<Rightarrow> nat" where
  "kind_of (RequestWillBeSent rid me u hs ty) = 0"
| "kind_of (ResponseReceived rid st rh) = 1"
| "kind_of (LoadingFinished rid n) = 2"
| "kind_of (LoadingFailed rid errorText) = 3"

fun deliver :: "regexp_engine \<Rightarrow> string \<Rightarrow> string \<times> event \<Rightarrow> BrowserMonitor \<Rightarrow> BrowserMonitor" where
  "deliver RegExp prefix (now, RequestWillBeSent rid me u hs ty) m =
     requestWillBeSent prefix now rid me u hs ty m"
| "deliver RegExp prefix (now, ResponseReceived rid st rh) m =
     responseReceived RegExp prefix rid st rh m"
| "deliver RegExp prefix (now, LoadingFinished rid n) m =
     loadingFinished RegExp prefix rid n m"
| "deliver RegExp prefix (now, LoadingFailed rid errorText) m =
     loadingFailed RegExp prefix rid errorText m"

fun run :: "regexp_engine \<Rightarrow> string \<Rightarrow> (string \<times> event) list \<Rightarrow> BrowserMonitor \<Rightarrow> BrowserMonitor" where
  "run RegExp prefix [] m = m"
| "run RegExp prefix (d # ds) m = run RegExp prefix ds (deliver RegExp prefix d m)"

text \<open>
  A regular-expression engine for evaluating the definitions on concrete inputs. It
  covers the patterns used below and agrees with JavaScript on them: the empty
  pattern matches every string, \<^verbatim>\<open>"["\<close> is a syntax error, and a pattern of
  lower-case letters, digits, \<^verbatim>\<open>/\<close> and \<^verbatim>\<open>:\<close> matches the strings that contain it.
  Every other pattern is outside the fragment and is reported as not compiling.
\<close>

fun starts_with :: "string \<Rightarrow> string \<Rightarrow> bool" where
  "starts_with [] s = True"
| "starts_with (p # ps) [] = False"
| "starts_with (p # ps) (c # cs) = (p = c \<and> starts_with ps cs)"

fun contains :: "string \<Rightarrow> string \<Rightarrow> bool" where
  "contains p [] = (p = [])"
| "contains p (c # cs) = (starts_with p (c # cs) \<or> contains p cs)"

definition literal_char :: "char \<Rightarrow> bool" where
  "literal_char c =
     ((CHR ''a'' \<le> c \<and> c \<le> CHR ''z'') \<or> (CHR ''0'' \<le> c \<and> c \<le> CHR ''9'')
      \<or> c = CHR ''/'' \<or> c = CHR '':'')"

definition literal_RegExp :: regexp_engine where
  "literal_RegExp p = (if list_all literal_char p then Some (contains p) else None)"

section \<open>Request store (core/database.ts)\<close>

text \<open>
  A row of the table \<^verbatim>\<open>network_requests\<close>, as the interface \<^verbatim>\<open>DatabaseRow\<close> declares
  it: \<open>None\<close> is SQL NULL. The table is the list of its rows in insertion order.
\<close>

record DatabaseRow =
  id_row :: string
  type_row :: string
  method_row :: "string option"
  url_row :: "string option"
  status_row :: "string option"
  headers_row :: "string option"
  responseHeaders_row :: "string option"
  responseBody_row :: "string option"
  responseSize_row :: "int option"
  body_row :: "string option"
  timestamp_row :: string
  encodedDataLength_row :: "int option"
  error_row :: "string option"

datatype status_value = Num int | Str string

datatype sort_column = SortTimestamp | SortResponseSize | SortStatus

datatype sort_order = Asc | Desc

record RequestQuery =
  type_q :: "string option"
  method_q :: "string option"
  status_q :: "status_value option"
  url_q :: "string option"
  startTime_q :: "string option"
  endTime_q :: "string option"
  limit_q :: "int option"
  offset_q :: "int option"
  minResponseSize_q :: "int option"
  maxResponseSize_q :: "int option"
  minStatus_q :: "int option"
  maxStatus_q :: "int option"
  urlPattern_q :: "string option"
  hasError_q :: "bool option"
  responseContentType_q :: "string option"
  error_q :: "string option"
  sortBy_q :: "sort_column option"
  sortOrder_q :: "sort_order option"

definition empty_query :: RequestQuery where
  "empty_query =
     \<lparr>type_q = None, method_q = None, status_q = None, url_q = None, startTime_q = None,
      endTime_q = None, limit_q = None, offset_q = None, minResponseSize_q = None,
      maxResponseSize_q = None, minStatus_q = None, maxStatus_q = None, urlPattern_q = None,
      hasError_q = None, responseContentType_q = None, error_q = None, sortBy_q = None,
      sortOrder_q = None\<rparr>"

text \<open>
  What the code takes from the JavaScript runtime and from the SQL engine, as
  parameters: \<^verbatim>\<open>JSON.stringify\<close> and \<^verbatim>\<open>JSON.parse\<close> on header objects, the operator
  \<^verbatim>\<open>text LIKE pattern\<close> (pattern first), the user function behind the operator
  \<^verbatim>\<open>REGEXP\<close> (\<open>None\<close> when none is registered: the statement then fails to prepare),
  and \<^verbatim>\<open>json_extract(json, path)\<close>. Two more belong to floating point, which the integers
  of the model do not have: the text that \<^verbatim>\<open>Number.prototype.toString\<close> writes for a number
  that is not a safe integer (the shortest digits that read back as the same number, in
  exponent notation from \<open>10 ^ 21\<close> on, as \<^verbatim>\<open>1e+21\<close>), and \<^verbatim>\<open>Number(text)\<close> on text that is
  not the plain decimal numeral of a safe integer.
\<close>

record builtins =
  JSON_stringify :: "headers_t \<Rightarrow> string"
  JSON_parse :: "string \<Rightarrow> headers_t"
  large_text :: "int \<Rightarrow> string"
  Number_other :: "string \<Rightarrow> int"
  sql_LIKE :: "string \<Rightarrow> string \<Rightarrow> bool"
  sql_REGEXP :: "(string \<Rightarrow> string \<Rightarrow> bool) option"
  sql_json_extract :: "string \<Rightarrow> string \<Rightarrow> string option"

subsection \<open>Numbers and text\<close>

text \<open>
  \<^verbatim>\<open>Number.prototype.toString\<close> on a safe integer, of magnitude below \<open>2 ^ 53\<close>: its
  decimal digits, a minus sign first for a negative number. On any other number, what
  the runtime writes.
\<close>

definition digit_char :: "nat \<Rightarrow> char" where
  "digit_char d = char_of (48 + d)"

function nat_toString :: "nat \<Rightarrow> string" where
  "nat_toString n =
     (if n < 10 then [digit_char n] else nat_toString (n div 10) @ [digit_char (n mod 10)])"
  by pat_completeness auto
termination
  by (relation "measure (\<lambda>n. n)") auto

declare nat_toString.simps [simp del]

definition decimal_text :: "int \<Rightarrow> string" where
  "decimal_text i = (if i < 0 then CHR ''-'' # nat_toString (nat (- i)) else nat_toString (nat i))"

definition Number_toString :: "builtins \<Rightarrow> int \<Rightarrow> string" where
  "Number_toString B i = (if \<bar>i\<bar> < 2 ^ 53 then decimal_text i else large_text B i)"

definition is_digit :: "char \<Rightarrow> bool" where
  "is_digit c = (CHR ''0'' \<le> c \<and> c \<le> CHR ''9'')"

definition digit_value :: "char \<Rightarrow> nat" where
  "digit_value c = of_char c - 48"

definition digits_value :: "string \<Rightarrow> nat" where
  "digits_value ds = foldl (\<lambda>a c. 10 * a + digit_value c) 0 ds"

text \<open>
  \<^verbatim>\<open>CAST(text AS INTEGER)\<close> of SQLite: leading white space is skipped, then the longest
  prefix that reads as an integer (an optional sign and digits) is converted and the
  rest is ignored; the result is 0 when there is no such prefix, and the nearest 64-bit
  integer when the prefix is out of range.
\<close>

definition sql_space :: "char \<Rightarrow> bool" where
  "sql_space c =
     (c = CHR '' '' \<or> c = CHR 0x09 \<or> c = CHR 0x0A \<or> c = CHR 0x0B \<or> c = CHR 0x0C
      \<or> c = CHR 0x0D)"

definition int64 :: "int \<Rightarrow> int" where
  "int64 v = max (- (2 ^ 63)) (min (2 ^ 63 - 1) v)"

definition sql_cast_integer :: "string \<Rightarrow> int" where
  "sql_cast_integer s =
     int64
       (case dropWhile sql_space s of
          [] \<Rightarrow> 0
        | c # cs \<Rightarrow>
            if c = CHR ''-'' then - int (digits_value (takeWhile is_digit cs))
            else if c = CHR ''+'' then int (digits_value (takeWhile is_digit cs))
            else int (digits_value (takeWhile is_digit (c # cs))))"

text \<open>
  \<^verbatim>\<open>Number(text)\<close>: the value of a plain decimal numeral (digits, with a minus sign
  first or not) when it is a safe integer; on any other text, what the runtime gives.
\<close>

definition is_decimal :: "string \<Rightarrow> bool" where
  "is_decimal s =
     (case s of
        [] \<Rightarrow> False
      | c # cs \<Rightarrow> if c = CHR ''-'' then cs \<noteq> [] \<and> list_all is_digit cs
                 else list_all is_digit (c # cs))"

definition decimal_value :: "string \<Rightarrow> int" where
  "decimal_value s =
     (case s of
        [] \<Rightarrow> 0
      | c # cs \<Rightarrow> if c = CHR ''-'' then - int (digits_value cs)
                 else int (digits_value (c # cs)))"

definition js_Number :: "builtins \<Rightarrow> string \<Rightarrow> int" where
  "js_Number B s =
     (if is_decimal s \<and> \<bar>decimal_value s\<bar> < 2 ^ 53 then decimal_value s
      else Number_other B s)"

subsection \<open>saveRequest, lines 79-101\<close>

text \<open>
  The thirteen values bound to the statement; \<^verbatim>\<open>undefined\<close> and \<^verbatim>\<open>null\<close> are both bound
  as NULL. \<^verbatim>\<open>INSERT OR REPLACE\<close> on the primary key \<^verbatim>\<open>id\<close> deletes the row with the same
  identifier, if any, and inserts the new one.
\<close>

definition bound_value :: "'a optional \<Rightarrow> 'a option" where
  "bound_value v = (case v of Defined x \<Rightarrow> Some x | _ \<Rightarrow> None)"

definition bound_row :: "builtins \<Rightarrow> NetworkRequest \<Rightarrow> DatabaseRow" where
  "bound_row B request =
     \<lparr>id_row = id_req request,
      type_row = type request,
      method_row = Some (method_req request),
      url_row = Some (url request),
      status_row = Some (Number_toString B (status request)),
      headers_row = Some (JSON_stringify B (headers request)),
      responseHeaders_row = Some (JSON_stringify B (responseHeaders request)),
      responseBody_row = bound_value (responseBody request),
      responseSize_row = Some (responseSize request),
      body_row = bound_value (body request),
      timestamp_row = timestamp request,
      encodedDataLength_row = bound_value (encodedDataLength request),
      error_row = error request\<rparr>"

definition saveRequest :: "builtins \<Rightarrow> NetworkRequest \<Rightarrow> DatabaseRow list \<Rightarrow> DatabaseRow list" where
  "saveRequest B request db =
     filter (\<lambda>row. id_row row \<noteq> id_req request) db @ [bound_row B request]"

subsection \<open>queryRequests, lines 103-217\<close>

text \<open>
  Each \<^verbatim>\<open>if (query.x)\<close> adds its condition when the field is truthy: a string that is
  neither absent nor empty, a number that is neither absent nor 0. A comparison with
  NULL is not true, so a row with NULL in the column fails the condition.
\<close>

definition when_string :: "string option \<Rightarrow> (string \<Rightarrow> bool) \<Rightarrow> bool" where
  "when_string v P = (case v of Some (c # cs) \<Rightarrow> P (c # cs) | _ \<Rightarrow> True)"

definition truthy_number :: "int option \<Rightarrow> bool" where
  "truthy_number v = (case v of Some n \<Rightarrow> n \<noteq> 0 | None \<Rightarrow> False)"

definition when_number :: "int option \<Rightarrow> (int \<Rightarrow> bool) \<Rightarrow> bool" where
  "when_number v P = (case v of Some n \<Rightarrow> (if n \<noteq> 0 then P n else True) | None \<Rightarrow> True)"

definition when_status ::
    "builtins \<Rightarrow> status_value option \<Rightarrow> (string \<Rightarrow> bool) \<Rightarrow> bool" where
  "when_status B v P =
     (case v of
        Some (Num n) \<Rightarrow> (if n \<noteq> 0 then P (Number_toString B n) else True)
      | Some (Str (c # cs)) \<Rightarrow> P (c # cs)
      | _ \<Rightarrow> True)"

definition not_null :: "'a option \<Rightarrow> ('a \<Rightarrow> bool) \<Rightarrow> bool" where
  "not_null column P = (case column of Some x \<Rightarrow> P x | None \<Rightarrow> False)"

definition substring_pattern :: "string \<Rightarrow> string" where
  "substring_pattern s = ''%'' @ s @ ''%''"

definition where_clause :: "builtins \<Rightarrow> RequestQuery \<Rightarrow> DatabaseRow \<Rightarrow> bool" where
  "where_clause B query row =
     (when_string (type_q query) (\<lambda>t. t \<noteq> ''all'' \<longrightarrow> type_row row = t)
      \<and> when_string (method_q query) (\<lambda>m. not_null (method_row row) (\<lambda>x. x = m))
      \<and> when_status B (status_q query) (\<lambda>s. not_null (status_row row) (\<lambda>x. x = s))
      \<and> when_string (url_q query)
          (\<lambda>u. not_null (url_row row) (sql_LIKE B (substring_pattern u)))
      \<and> when_string (startTime_q query) (\<lambda>t. timestamp_row row \<ge> t)
      \<and> when_string (endTime_q query) (\<lambda>t. timestamp_row row \<le> t)
      \<and> when_number (minResponseSize_q query) (\<lambda>n. not_null (responseSize_row row) (\<lambda>x. x \<ge> n))
      \<and> when_number (maxResponseSize_q query) (\<lambda>n. not_null (responseSize_row row) (\<lambda>x. x \<le> n))
      \<and> when_number (minStatus_q query)
          (\<lambda>n. not_null (status_row row) (\<lambda>x. sql_cast_integer x \<ge> n))
      \<and> when_number (maxStatus_q query)
          (\<lambda>n. not_null (status_row row) (\<lambda>x. sql_cast_integer x \<le> n))
      \<and> when_string (urlPattern_q query)
          (\<lambda>p. not_null (sql_REGEXP B) (\<lambda>regexp. not_null (url_row row) (regexp p)))
      \<and> when_string (responseContentType_q query)
          (\<lambda>t. not_null (responseHeaders_row row)
                 (\<lambda>j. not_null (sql_json_extract B j ''$.Content-Type'')
                        (sql_LIKE B (substring_pattern t))))
      \<and> when_string (error_q query)
          (\<lambda>e. not_null (error_row row) (sql_LIKE B (substring_pattern e))))"

text \<open>
  \<^verbatim>\<open>ORDER BY\<close>: the column of \<^verbatim>\<open>sortBy\<close>, ascending unless \<^verbatim>\<open>sortOrder\<close> says
  \<^verbatim>\<open>desc\<close>; without \<^verbatim>\<open>sortBy\<close>, \<^verbatim>\<open>timestamp DESC\<close>. Text compares bytewise, NULL sorts
  before every value. SQL leaves the order of rows with equal keys open; the model
  keeps insertion order when ascending and reverses it when descending.
\<close>

fun sort_by_column :: "sort_column \<Rightarrow> DatabaseRow list \<Rightarrow> DatabaseRow list" where
  "sort_by_column SortTimestamp rows = sort_key timestamp_row rows"
| "sort_by_column SortResponseSize rows = sort_key responseSize_row rows"
| "sort_by_column SortStatus rows = sort_key status_row rows"

definition order_by :: "RequestQuery \<Rightarrow> DatabaseRow list \<Rightarrow> DatabaseRow list" where
  "order_by query rows =
     (case sortBy_q query of
        Some column \<Rightarrow>
          (case sortOrder_q query of
             Some Desc \<Rightarrow> rev (sort_by_column column rows)
           | _ \<Rightarrow> sort_by_column column rows)
      | None \<Rightarrow> rev (sort_key timestamp_row rows))"

text \<open>
  \<^verbatim>\<open>LIMIT ? OFFSET ?\<close>, each added when the field is truthy (an offset of 0 skips
  nothing either way). A negative limit is no limit and a negative offset is no
  offset, as in SQLite.
\<close>

definition limit_offset :: "RequestQuery \<Rightarrow> DatabaseRow list \<Rightarrow> DatabaseRow list" where
  "limit_offset query rows =
     (let rest = (case offset_q query of Some k \<Rightarrow> drop (nat k) rows | None \<Rightarrow> rows)
      in case limit_q query of
           Some n \<Rightarrow> (if n \<noteq> 0 \<and> 0 \<le> n then take (nat n) rest else rest)
         | None \<Rightarrow> rest)"

text \<open>
  The mapping of a row back to a record, lines 200-216, with its \<^verbatim>\<open>||\<close> defaults.
  \<^verbatim>\<open>body\<close> and \<^verbatim>\<open>encodedDataLength\<close> are passed on as the row has them: \<^verbatim>\<open>null\<close> for
  NULL.
\<close>

definition column_value :: "'a option \<Rightarrow> 'a optional" where
  "column_value c = (case c of Some x \<Rightarrow> Defined x | None \<Rightarrow> Null)"

definition or_string :: "string option \<Rightarrow> string \<Rightarrow> string" where
  "or_string v d = (case v of Some (c # cs) \<Rightarrow> c # cs | _ \<Rightarrow> d)"

definition row_to_request :: "builtins \<Rightarrow> DatabaseRow \<Rightarrow> NetworkRequest" where
  "row_to_request B row =
     \<lparr>id_req = id_row row,
      timestamp = timestamp_row row,
      method_req = or_string (method_row row) [],
      url = or_string (url_row row) [],
      headers = (case headers_row row of Some (c # cs) \<Rightarrow> JSON_parse B (c # cs) | _ \<Rightarrow> []),
      type = type_row row,
      status = (case status_row row of Some (c # cs) \<Rightarrow> js_Number B (c # cs) | _ \<Rightarrow> 0),
      responseHeaders =
        (case responseHeaders_row row of Some (c # cs) \<Rightarrow> JSON_parse B (c # cs) | _ \<Rightarrow> []),
      responseSize = (case responseSize_row row of Some n \<Rightarrow> (if n \<noteq> 0 then n else 0) | None \<Rightarrow> 0),
      responseBody = Defined (or_string (responseBody_row row) []),
      body = column_value (body_row row),
      encodedDataLength = column_value (encodedDataLength_row row),
      error = (case error_row row of Some (c # cs) \<Rightarrow> Some (c # cs) | _ \<Rightarrow> None)\<rparr>"

text \<open>
  The statement fails to prepare, and the call rejects, in two cases: the operator
  \<^verbatim>\<open>REGEXP\<close> is used and no such function is registered, or \<^verbatim>\<open>OFFSET\<close> is added
  without \<^verbatim>\<open>LIMIT\<close>, which SQL does not parse.
\<close>

datatype sql_error = No_such_function_REGEXP | Syntax_error_near_OFFSET

definition queryRequests ::
    "builtins \<Rightarrow> RequestQuery \<Rightarrow> DatabaseRow list \<Rightarrow> sql_error + NetworkRequest list" where
  "queryRequests B query db =
     (if truthy_string (urlPattern_q query) \<and> sql_REGEXP B = None then Inl No_such_function_REGEXP
      else if truthy_number (offset_q query) \<and> \<not> truthy_number (limit_q query)
        then Inl Syntax_error_near_OFFSET
      else Inr (map (row_to_request B)
                  (limit_offset query (order_by query (filter (where_clause B query) db)))))"

subsection \<open>clearOldRequests, lines 267-279\<close>














section \<open>Auxiliary notions for the statements\<close>

text \<open>
  What one event writes into the record it finds, without the fan-out: the three
  assignments of lines 336-337, 349 and 361.
\<close>

fun merge_event :: "event \<Rightarrow> NetworkRequest \<Rightarrow> NetworkRequest" where
  "merge_event (RequestWillBeSent rid me u hs ty) r = r"
| "merge_event (ResponseReceived rid st rh) r = r\<lparr>status := st, responseHeaders := rh\<rparr>"
| "merge_event (LoadingFinished rid n) r = r\<lparr>responseSize := n\<rparr>"
| "merge_event (LoadingFailed rid errorText) r =
     r\<lparr>error := Some (if errorText \<noteq> [] then errorText else unknown_error)\<rparr>"

text \<open>Every record of the live table is stored under its own identifier.\<close>

definition keys_are_ids :: "BrowserMonitor \<Rightarrow> bool" where
  "keys_are_ids m = (\<forall>k r. networkRequests m k = Some r \<longrightarrow> id_req r = k)"

text \<open>
  A record as \<^verbatim>\<open>queryRequests\<close> returns it after \<^verbatim>\<open>saveRequest\<close> stored it. What the
  statements ask of the runtime: of the JSON functions on one header object, that its
  text is not empty and reads back as the object; of \<^verbatim>\<open>toString\<close> and \<^verbatim>\<open>Number\<close> on
  one number, the same. An optional field that was absent comes back as \<^verbatim>\<open>null\<close>.
\<close>

definition readback :: "builtins \<Rightarrow> NetworkRequest \<Rightarrow> NetworkRequest" where
  "readback B request = row_to_request B (bound_row B request)"

definition json_roundtrip :: "builtins \<Rightarrow> headers_t \<Rightarrow> bool" where
  "json_roundtrip B h = (JSON_stringify B h \<noteq> [] \<and> JSON_parse B (JSON_stringify B h) = h)"

definition number_roundtrip :: "builtins \<Rightarrow> int \<Rightarrow> bool" where
  "number_roundtrip B i = (Number_toString B i \<noteq> [] \<and> js_Number B (Number_toString B i) = i)"

definition nulled :: "'a optional \<Rightarrow> 'a optional" where
  "nulled v = (case v of Defined x \<Rightarrow> Defined x | _ \<Rightarrow> Null)"

text \<open>
  A status within the bounds of a query: each bound counts when it is given and is not 0.
\<close>

definition in_status_range :: "int option \<Rightarrow> int option \<Rightarrow> int \<Rightarrow> bool" where
  "in_status_range lo hi s =
     ((case lo of Some n \<Rightarrow> n = 0 \<or> n \<le> s | None \<Rightarrow> True)
      \<and> (case hi of Some n \<Rightarrow> n = 0 \<or> s \<le> n | None \<Rightarrow> True))"


text \<open>
  The runtime and the SQL engine for evaluating the definitions, on ASCII text that
  JSON writes without escapes (no quotation mark, backslash or control character) and
  on header objects with no key that reads as an array index: the JSON text of such an
  object and its reading back; \<^verbatim>\<open>json_extract\<close> for a path \<^verbatim>\<open>$.key\<close>; \<^verbatim>\<open>LIKE\<close> with
  its wildcards \<^verbatim>\<open>%\<close> and \<^verbatim>\<open>_\<close>, letters compared without case; no function
  \<^verbatim>\<open>regexp\<close>, as on a fresh connection; and the text of a number that is not a safe
  integer, for the integers whose decimal digits up to the trailing zeros are the
  shortest that read back as the same number, as \<open>10 ^ 21\<close>.
\<close>

definition quoted :: "string \<Rightarrow> string" where
  "quoted s = CHR 0x22 # s @ [CHR 0x22]"

fun join_with :: "string \<Rightarrow> string list \<Rightarrow> string" where
  "join_with sep [] = []"
| "join_with sep [x] = x"
| "join_with sep (x # y # ys) = x @ sep @ join_with sep (y # ys)"

definition plain_stringify :: "headers_t \<Rightarrow> string" where
  "plain_stringify h =
     ''{'' @ join_with '','' (map (\<lambda>(k, v). quoted k @ '':'' @ quoted v) h) @ ''}''"

fun split_on :: "char \<Rightarrow> string \<Rightarrow> string list" where
  "split_on c [] = [[]]"
| "split_on c (x # xs) =
     (if x = c then [] # split_on c xs
      else (case split_on c xs of p # ps \<Rightarrow> (x # p) # ps | [] \<Rightarrow> [[x]]))"

fun every_second :: "'a list \<Rightarrow> 'a list" where
  "every_second (a # b # xs) = b # every_second xs"
| "every_second xs = []"

fun pairs :: "'a list \<Rightarrow> ('a \<times> 'a) list" where
  "pairs (a # b # xs) = (a, b) # pairs xs"
| "pairs xs = []"

definition plain_parse :: "string \<Rightarrow> headers_t" where
  "plain_parse s = pairs (every_second (split_on (CHR 0x22) s))"

definition plain_json_extract :: "string \<Rightarrow> string \<Rightarrow> string option" where
  "plain_json_extract j path =
     (case path of
        p # q # key \<Rightarrow> if p = CHR ''$'' \<and> q = CHR ''.'' then map_of (plain_parse j) key else None
      | _ \<Rightarrow> None)"

definition lower_ascii :: "char \<Rightarrow> char" where
  "lower_ascii c =
     (if CHR ''A'' \<le> c \<and> c \<le> CHR ''Z'' then char_of (of_char c + (32 :: nat)) else c)"

fun like :: "string \<Rightarrow> string \<Rightarrow> bool" where
  "like [] [] = True"
| "like [] (c # cs) = False"
| "like (p # ps) [] = (p = CHR ''%'' \<and> like ps [])"
| "like (p # ps) (c # cs) =
     (if p = CHR ''%'' then like ps (c # cs) \<or> like (p # ps) cs
      else (p = CHR ''_'' \<or> lower_ascii p = lower_ascii c) \<and> like ps cs)"

definition exponent_notation :: "int \<Rightarrow> string" where
  "exponent_notation i =
     (let ds = nat_toString (nat \<bar>i\<bar>);
          significant = rev (dropWhile (\<lambda>c. c = CHR ''0'') (rev ds))
      in (if i < 0 then ''-'' else [])
         @ (case significant of
              [] \<Rightarrow> []
            | d # rest \<Rightarrow> d # (if rest = [] then [] else CHR ''.'' # rest))
         @ ''e+'' @ nat_toString (length ds - 1))"

definition exponent_value :: "string \<Rightarrow> int" where
  "exponent_value s =
     (let negative = (case s of c # cs \<Rightarrow> c = CHR ''-'' | [] \<Rightarrow> False);
          t = (if negative then tl s else s);
          mantissa = takeWhile (\<lambda>c. c \<noteq> CHR ''e'') t;
          exponent = drop 2 (dropWhile (\<lambda>c. c \<noteq> CHR ''e'') t);
          whole = takeWhile (\<lambda>c. c \<noteq> CHR ''.'') mantissa;
          fraction = drop 1 (dropWhile (\<lambda>c. c \<noteq> CHR ''.'') mantissa);
          v = int (digits_value (whole @ fraction) * 10 ^ (digits_value exponent - length fraction))
      in if negative then - v else v)"

definition sample_large_text :: "int \<Rightarrow> string" where
  "sample_large_text i = (if \<bar>i\<bar> < 10 ^ 21 then decimal_text i else exponent_notation i)"

definition sample_builtins :: builtins where
  "sample_builtins =
     \<lparr>JSON_stringify = plain_stringify,
      JSON_parse = plain_parse,
      large_text = sample_large_text,
      Number_other = exponent_value,
      sql_LIKE = like,
      sql_REGEXP = None,
      sql_json_extract = plain_json_extract\<rparr>"

text \<open>Sample data. The sample clock reads 2024-05-03T12:00:00.000Z.\<close>

definition sample_request :: NetworkRequest where
  "sample_request =
     \<lparr>id_req = ''7'', timestamp = ''2024-05-01T10:00:00.000Z'', method_req = ''GET'',
      url = ''http://example/api'', headers = [], type = ''document'', status = 0,
      responseHeaders = [], responseSize = 0, responseBody = Undefined, body = Undefined,
      encodedDataLength = Undefined, error = Some []\<rparr>"

definition sample_start :: "string \<times> event" where
  "sample_start =
     (''2024-05-01T10:00:00.000Z'',
      RequestWillBeSent ''7'' ''GET'' ''http://example/api'' [] ''document'')"

definition sample_merges :: "(string \<times> event) list" where
  "sample_merges =
     [(''2024-05-01T10:00:02.000Z'', LoadingFinished ''7'' 512),
      (''2024-05-01T10:00:01.000Z'', ResponseReceived ''7'' 200 [(''content-type'', ''text/html'')])]"

definition bracket_monitor :: BrowserMonitor where
  "bracket_monitor =
     setRequestFilter \<lparr>urlPattern = Some ''['', types = None\<rparr>
       (setNetworkCallback new_BrowserMonitor)"

definition example_monitor :: BrowserMonitor where
  "example_monitor =
     setRequestFilter \<lparr>urlPattern = Some ''example'', types = None\<rparr>
       (setNetworkCallback new_BrowserMonitor)"

definition status_sample :: "string \<Rightarrow> string \<Rightarrow> int \<Rightarrow> NetworkRequest" where
  "status_sample i t s = sample_request\<lparr>id_req := i, timestamp := t, status := s\<rparr>"

definition sample_200 :: NetworkRequest where
  "sample_200 = status_sample ''1'' ''2024-05-01T10:00:01.000Z'' 200"

definition sample_404 :: NetworkRequest where
  "sample_404 = status_sample ''2'' ''2024-05-01T10:00:02.000Z'' 404"

definition sample_500 :: NetworkRequest where
  "sample_500 = status_sample ''3'' ''2024-05-01T10:00:03.000Z'' 500"

definition sample_201 :: NetworkRequest where
  "sample_201 = status_sample ''4'' ''2024-05-01T10:00:04.000Z'' 201"

definition sample_rows :: "DatabaseRow list" where
  "sample_rows = map (bound_row sample_builtins) [sample_200, sample_404, sample_500, sample_201]"

definition sample_saved :: NetworkRequest where
  "sample_saved =
     sample_request\<lparr>headers := [(''Accept'', ''*/*'')],
       responseHeaders := [(''Content-Type'', ''application/json''), (''Cache-Control'', ''no-cache'')],
       status := 200, responseSize := 256, responseBody := Defined ''ok'', body := Defined ''q=1'',
       encodedDataLength := Defined 512, error := None\<rparr>"

definition sample_fixture :: NetworkRequest where
  "sample_fixture = sample_saved\<lparr>body := Undefined, encodedDataLength := Undefined\<rparr>"

definition sample_huge :: NetworkRequest where
  "sample_huge = status_sample ''5'' ''2024-05-01T10:00:05.000Z'' (10 ^ 21)"





section \<open>Properties of the tracker\<close>

lemma truthy_string_simps:
  "truthy_string None = False"
  "truthy_string (Some []) = False"
  "truthy_string (Some (c # cs)) = True"
  by (simp_all add: truthy_string_def)

lemma notify_networkRequests: "networkRequests (notify RegExp r m) = networkRequests m"
  by (simp add: notify_def split: prod.splits)

lemma deliver_merges:
  assumes "networkRequests m (prefix @ requestId_of e) = Some r" and "kind_of e \<noteq> 0"
  shows "networkRequests (deliver RegExp prefix (now, e) m) (prefix @ requestId_of e)
           = Some (merge_event e r)"
  using assms
  by (cases e)
     (simp_all add: responseReceived_def loadingFinished_def loadingFailed_def Let_def
        notify_networkRequests)

lemma run_merges:
  assumes "networkRequests m (prefix @ rid) = Some r"
      and "\<forall>d \<in> set evs. requestId_of (snd d) = rid \<and> kind_of (snd d) \<noteq> 0"
  shows "networkRequests (run RegExp prefix evs m) (prefix @ rid)
           = Some (fold merge_event (map snd evs) r)"
  using assms
proof (induction evs arbitrary: m r)
  case Nil
  then show ?case by simp
next
  case (Cons d evs)
  obtain now e where d: "d = (now, e)" by (cases d)
  have e: "requestId_of e = rid" "kind_of e \<noteq> 0" using Cons.prems(2) d by auto
  have "networkRequests (deliver RegExp prefix d m) (prefix @ rid) = Some (merge_event e r)"
    using deliver_merges [of m prefix e r RegExp now] Cons.prems(1) e d by simp
  then have "networkRequests (run RegExp prefix evs (deliver RegExp prefix d m)) (prefix @ rid)
               = Some (fold merge_event (map snd evs) (merge_event e r))"
    using Cons.IH Cons.prems(2) by simp
  then show ?case using d by simp
qed

lemma fold_merge_fixed:
  "id_req (fold merge_event es r) = id_req r
   \<and> timestamp (fold merge_event es r) = timestamp r
   \<and> method_req (fold merge_event es r) = method_req r
   \<and> url (fold merge_event es r) = url r
   \<and> headers (fold merge_event es r) = headers r
   \<and> type (fold merge_event es r) = type r
   \<and> responseBody (fold merge_event es r) = responseBody r
   \<and> body (fold merge_event es r) = body r
   \<and> encodedDataLength (fold merge_event es r) = encodedDataLength r"
proof (induction es arbitrary: r)
  case Nil
  show ?case by simp
next
  case (Cons e es)
  show ?case using Cons.IH [of "merge_event e r"] by (cases e) simp_all
qed

lemma fold_merge_status_absent:
  "\<forall>e \<in> set es. kind_of e \<noteq> 1 \<Longrightarrow>
     status (fold merge_event es r) = status r
     \<and> responseHeaders (fold merge_event es r) = responseHeaders r"
proof (induction es arbitrary: r)
  case Nil
  show ?case by simp
next
  case (Cons e es)
  then show ?case using Cons.IH [of "merge_event e r"] by (cases e) simp_all
qed

lemma fold_merge_status_present:
  "distinct (map kind_of es) \<Longrightarrow> ResponseReceived rid st rh \<in> set es \<Longrightarrow>
     status (fold merge_event es r) = st \<and> responseHeaders (fold merge_event es r) = rh"
proof (induction es arbitrary: r)
  case Nil
  then show ?case by simp
next
  case (Cons e es)
  show ?case
  proof (cases "e = ResponseReceived rid st rh")
    case True
    then have "\<forall>x \<in> set es. kind_of x \<noteq> 1" using Cons.prems(1) by force
    then show ?thesis using fold_merge_status_absent [of es "merge_event e r"] True by simp
  next
    case False
    then show ?thesis using Cons by simp
  qed
qed

lemma fold_merge_size_absent:
  "\<forall>e \<in> set es. kind_of e \<noteq> 2 \<Longrightarrow> responseSize (fold merge_event es r) = responseSize r"
proof (induction es arbitrary: r)
  case Nil
  show ?case by simp
next
  case (Cons e es)
  then show ?case using Cons.IH [of "merge_event e r"] by (cases e) simp_all
qed

lemma fold_merge_size_present:
  "distinct (map kind_of es) \<Longrightarrow> LoadingFinished rid n \<in> set es \<Longrightarrow>
     responseSize (fold merge_event es r) = n"
proof (induction es arbitrary: r)
  case Nil
  then show ?case by simp
next
  case (Cons e es)
  show ?case
  proof (cases "e = LoadingFinished rid n")
    case True
    then have "\<forall>x \<in> set es. kind_of x \<noteq> 2" using Cons.prems(1) by force
    then show ?thesis using fold_merge_size_absent [of es "merge_event e r"] True by simp
  next
    case False
    then show ?thesis using Cons by simp
  qed
qed

lemma fold_merge_error_absent:
  "\<forall>e \<in> set es. kind_of e \<noteq> 3 \<Longrightarrow> error (fold merge_event es r) = error r"
proof (induction es arbitrary: r)
  case Nil
  show ?case by simp
next
  case (Cons e es)
  then show ?case using Cons.IH [of "merge_event e r"] by (cases e) simp_all
qed

lemma fold_merge_error_present:
  "distinct (map kind_of es) \<Longrightarrow> LoadingFailed rid errorText \<in> set es \<Longrightarrow>
     error (fold merge_event es r) = Some (if errorText \<noteq> [] then errorText else unknown_error)"
proof (induction es arbitrary: r)
  case Nil
  then show ?case by simp
next
  case (Cons e es)
  show ?case
  proof (cases "e = LoadingFailed rid errorText")
    case True
    then have "\<forall>x \<in> set es. kind_of x \<noteq> 3" using Cons.prems(1) by force
    then show ?thesis using fold_merge_error_absent [of es "merge_event e r"] True by simp
  next
    case False
    then show ?thesis using Cons by simp
  qed
qed



lemma requestWillBeSent_delivered:
  "delivered (requestWillBeSent prefix now rid me u hs ty m) = delivered m"
  by (simp add: requestWillBeSent_def Let_def)


lemma notify_delivered:
  "delivered (notify RegExp r m) = delivered m \<or> delivered (notify RegExp r m) = delivered m @ [r]"
  by (simp add: notify_def split: prod.splits)

lemma deliver_keys_are_ids:
  "keys_are_ids m \<Longrightarrow> keys_are_ids (deliver RegExp prefix d m)"
  apply (cases d)
  subgoal for now e
    apply (cases e)
    apply (auto simp: keys_are_ids_def requestWillBeSent_def responseReceived_def loadingFinished_def loadingFailed_def Let_def notify_networkRequests split: option.splits)
    done
  done

lemma deliver_delivered:
  assumes "keys_are_ids m"
  shows "\<exists>ds. delivered (deliver RegExp prefix (now, e) m) = delivered m @ ds
      \<and> (\<forall>r \<in> set ds. kind_of e \<noteq> 0 \<and> id_req r = prefix @ requestId_of e)"
proof (cases e)
  case (RequestWillBeSent rid me u hs ty)
  then show ?thesis by (simp add: requestWillBeSent_delivered)
next
  case (ResponseReceived rid st rh)
  show ?thesis
  proof (cases "networkRequests m (prefix @ rid)")
    case None
    then show ?thesis using ResponseReceived by (simp add: responseReceived_def)
  next
    case (Some r)
    then have "id_req r = prefix @ rid" using assms by (simp add: keys_are_ids_def)
    then show ?thesis using ResponseReceived Some
       notify_delivered [of RegExp "r\<lparr>status := st, responseHeaders := rh\<rparr>" "m\<lparr>networkRequests := (networkRequests m)(prefix @ rid \<mapsto> r\<lparr>status := st, responseHeaders := rh\<rparr>)\<rparr>"]
      by (auto simp add: responseReceived_def Let_def)
  qed
next
  case (LoadingFinished rid n)
  show ?thesis
  proof (cases "networkRequests m (prefix @ rid)")
    case None
    then show ?thesis using LoadingFinished by (simp add: loadingFinished_def)
  next
    case (Some r)
    then have "id_req r = prefix @ rid" using assms by (simp add: keys_are_ids_def)
    then show ?thesis using LoadingFinished Some
       notify_delivered [of RegExp "r\<lparr>responseSize := n\<rparr>" "m\<lparr>networkRequests := (networkRequests m)(prefix @ rid \<mapsto> r\<lparr>responseSize := n\<rparr>)\<rparr>"]
      by (auto simp add: loadingFinished_def Let_def)
  qed
next
  case (LoadingFailed rid etext)
  show ?thesis
  proof (cases "networkRequests m (prefix @ rid)")
    case None
    then show ?thesis using LoadingFailed by (simp add: loadingFailed_def)
  next
    case (Some r)
    then have "id_req r = prefix @ rid" using assms by (simp add: keys_are_ids_def)
    then show ?thesis using LoadingFailed Some
       notify_delivered [of RegExp "r\<lparr>error := Some (if etext \<noteq> [] then etext else unknown_error)\<rparr>" "m\<lparr>networkRequests := (networkRequests m)(prefix @ rid \<mapsto> r\<lparr>error := Some (if etext \<noteq> [] then etext else unknown_error)\<rparr>)\<rparr>"]
      by (auto simp add: loadingFailed_def Let_def)
  qed
qed

lemma run_delivered:
  assumes "keys_are_ids m"
  shows "\<exists>ds. delivered (run RegExp prefix evs m) = delivered m @ ds
      \<and> (\<forall>r \<in> set ds. \<exists>d \<in> set evs. kind_of (snd d) \<noteq> 0 \<and> id_req r = prefix @ requestId_of (snd d))"
  using assms
proof (induction evs arbitrary: m)
  case Nil
  then show ?case by simp
next
  case (Cons d evs)
  obtain now e where d: "d = (now, e)" by (cases d)
  from deliver_delivered [OF Cons.prems, of RegExp prefix now e]
  obtain ds1 where 1: "delivered (deliver RegExp prefix d m) = delivered m @ ds1"
    and 2: "\<forall>r \<in> set ds1. kind_of e \<noteq> 0 \<and> id_req r = prefix @ requestId_of e"
    using d by auto
  from Cons.IH [OF deliver_keys_are_ids [OF Cons.prems], of RegExp prefix d]
  obtain ds2 where 3: "delivered (run RegExp prefix evs (deliver RegExp prefix d m)) = delivered (deliver RegExp prefix d m) @ ds2"
    and 4: "\<forall>r \<in> set ds2. \<exists>d \<in> set evs. kind_of (snd d) \<noteq> 0 \<and> id_req r = prefix @ requestId_of (snd d)"
    by auto
  have "delivered (run RegExp prefix (d # evs) m) = delivered m @ (ds1 @ ds2)"
    using 1 3 by simp
  moreover have "\<forall>r \<in> set (ds1 @ ds2). \<exists>d' \<in> set (d # evs). kind_of (snd d') \<noteq> 0 \<and> id_req r = prefix @ requestId_of (snd d')"
    using 2 4 d by auto
  ultimately show ?case by blast
qed


lemma new_BrowserMonitor_keys_are_ids: "keys_are_ids new_BrowserMonitor"
  by (simp add: keys_are_ids_def new_BrowserMonitor_def)

text \<open>
  Claim C1 (as amended). Take a request-started event for an identifier, followed by
  events of the other three kinds for the same identifier, each kind at most once, in
  any order. The record of the live table then has identifier, timestamp, method, URL,
  headers and type from the start event; status and response headers from the
  response-received event if one was delivered, else 0 and empty; the response size from
  the load-finished event if one was delivered, else 0; and as error the text of the
  load-failed event (the generic text when that text is empty) if one was delivered,
  else the empty string. Response body, body and encoded data length stay absent.
\<close>

theorem merged_record_fields:
  assumes "\<forall>d \<in> set evs. requestId_of (snd d) = rid \<and> kind_of (snd d) \<noteq> 0"
      and "distinct (map (kind_of \<circ> snd) evs)"
  shows "\<exists>r. networkRequests
               (run RegExp prefix ((now, RequestWillBeSent rid me u hs ty) # evs) m)
               (prefix @ rid) = Some r
      \<and> id_req r = prefix @ rid \<and> timestamp r = now \<and> method_req r = me \<and> url r = u
      \<and> headers r = hs \<and> type r = ty
      \<and> responseBody r = Undefined \<and> body r = Undefined \<and> encodedDataLength r = Undefined
      \<and> (\<forall>st rh. ResponseReceived rid st rh \<in> snd ` set evs
            \<longrightarrow> status r = st \<and> responseHeaders r = rh)
      \<and> ((\<forall>e \<in> snd ` set evs. kind_of e \<noteq> 1) \<longrightarrow> status r = 0 \<and> responseHeaders r = [])
      \<and> (\<forall>n. LoadingFinished rid n \<in> snd ` set evs \<longrightarrow> responseSize r = n)
      \<and> ((\<forall>e \<in> snd ` set evs. kind_of e \<noteq> 2) \<longrightarrow> responseSize r = 0)
      \<and> (\<forall>errorText. LoadingFailed rid errorText \<in> snd ` set evs
            \<longrightarrow> error r = Some (if errorText \<noteq> [] then errorText else unknown_error))
      \<and> ((\<forall>e \<in> snd ` set evs. kind_of e \<noteq> 3) \<longrightarrow> error r = Some [])"
proof -
  define r0 where "r0 =
     \<lparr>id_req = prefix @ rid, timestamp = now, method_req = me, url = u,
      headers = hs, type = ty, status = 0, responseHeaders = [],
      responseSize = 0, responseBody = Undefined, body = Undefined,
      encodedDataLength = Undefined, error = Some []\<rparr>"
  define m1 where "m1 = deliver RegExp prefix (now, RequestWillBeSent rid me u hs ty) m"
  define es where "es = map snd evs"
  define r where "r = fold merge_event es r0"
  have start: "networkRequests m1 (prefix @ rid) = Some r0"
    by (simp add: m1_def r0_def requestWillBeSent_def Let_def)
  have final: "networkRequests
                 (run RegExp prefix ((now, RequestWillBeSent rid me u hs ty) # evs) m)
                 (prefix @ rid) = Some r"
    using run_merges [OF start assms(1), of RegExp] by (simp add: m1_def r_def es_def)
  have dist: "distinct (map kind_of es)"
    using assms(2) by (simp add: es_def)
  have set_es: "set es = snd ` set evs"
    by (simp add: es_def)
  have fixed: "id_req r = prefix @ rid \<and> timestamp r = now \<and> method_req r = me \<and> url r = u
      \<and> headers r = hs \<and> type r = ty
      \<and> responseBody r = Undefined \<and> body r = Undefined \<and> encodedDataLength r = Undefined"
    using fold_merge_fixed [of es r0] by (simp add: r_def r0_def)
  have st1: "\<forall>st rh. ResponseReceived rid st rh \<in> snd ` set evs
            \<longrightarrow> status r = st \<and> responseHeaders r = rh"
    using fold_merge_status_present [OF dist, of rid _ _ r0] by (simp add: r_def set_es)
  have st0: "(\<forall>e \<in> snd ` set evs. kind_of e \<noteq> 1) \<longrightarrow> status r = 0 \<and> responseHeaders r = []"
    using fold_merge_status_absent [of es r0] by (simp add: r_def r0_def set_es)
  have sz1: "\<forall>n. LoadingFinished rid n \<in> snd ` set evs \<longrightarrow> responseSize r = n"
    using fold_merge_size_present [OF dist, of rid _ r0] by (simp add: r_def set_es)
  have sz0: "(\<forall>e \<in> snd ` set evs. kind_of e \<noteq> 2) \<longrightarrow> responseSize r = 0"
    using fold_merge_size_absent [of es r0] by (simp add: r_def r0_def set_es)
  have er1: "\<forall>errorText. LoadingFailed rid errorText \<in> snd ` set evs
            \<longrightarrow> error r = Some (if errorText \<noteq> [] then errorText else unknown_error)"
    using fold_merge_error_present [OF dist, of rid _ r0] by (simp add: r_def set_es)
  have er0: "(\<forall>e \<in> snd ` set evs. kind_of e \<noteq> 3) \<longrightarrow> error r = Some []"
    using fold_merge_error_absent [of es r0] by (simp add: r_def r0_def set_es)
  show ?thesis
    using final fixed st1 st0 sz1 sz0 er1 er0 by blast
qed

theorem merged_record_fields_witness:
  "map (requestId_of \<circ> snd) sample_merges = [''7'', ''7'']
   \<and> distinct (map (kind_of \<circ> snd) sample_merges)
   \<and> networkRequests (run literal_RegExp '''' (sample_start # sample_merges) new_BrowserMonitor) ''7''
       = Some (sample_request\<lparr>status := 200, responseHeaders := [(''content-type'', ''text/html'')],
                 responseSize := 512\<rparr>)"
proof -
  have a: "\<forall>d \<in> set sample_merges. requestId_of (snd d) = ''7'' \<and> kind_of (snd d) \<noteq> 0"
    by (simp add: sample_merges_def)
  have b: "distinct (map (kind_of \<circ> snd) sample_merges)"
    by (simp add: sample_merges_def)
  obtain r where r: "networkRequests
        (run literal_RegExp '''' (sample_start # sample_merges) new_BrowserMonitor) ''7'' = Some r"
    and f: "id_req r = ''7''" "timestamp r = ''2024-05-01T10:00:00.000Z''" "method_req r = ''GET''"
      "url r = ''http://example/api''" "headers r = []" "type r = ''document''"
      "responseBody r = Undefined" "body r = Undefined" "encodedDataLength r = Undefined"
    and s: "status r = 200" "responseHeaders r = [(''content-type'', ''text/html'')]"
    and z: "responseSize r = 512"
    and e: "error r = Some []"
    using merged_record_fields [OF a b, of literal_RegExp "''''" "''2024-05-01T10:00:00.000Z''"
        "''GET''" "''http://example/api''" "[]" "''document''" new_BrowserMonitor]
    by (auto simp add: sample_merges_def sample_start_def)
  have "r = sample_request\<lparr>status := 200, responseHeaders := [(''content-type'', ''text/html'')],
                 responseSize := 512\<rparr>"
    using f s z e by (simp add: sample_request_def)
  then show ?thesis using b r by (simp add: sample_merges_def)
qed

text \<open>
  Claim C1 as stated fails: after a request-started event alone the error of the record
  is the empty string of line 326, not null.
\<close>

theorem error_default_counterexample:
  "map_option error
     (networkRequests (run literal_RegExp '''' [sample_start] new_BrowserMonitor) ''7'')
   \<noteq> Some None"
  by (simp add: sample_start_def requestWillBeSent_def new_BrowserMonitor_def Let_def)


lemma deliver_requestFilter: "requestFilter (deliver RegExp prefix d m) = requestFilter m"
proof (cases d)
  case (Pair now e)
  then show ?thesis
    by (cases e)
       (simp_all add: requestWillBeSent_def responseReceived_def loadingFinished_def
          loadingFailed_def notify_def Let_def split: option.splits prod.splits)
qed

lemma invalid_pattern_shouldProcessRequest:
  assumes "urlPattern f = Some p" and "RegExp p = None" and "RegExp [] \<noteq> None"
  shows "shouldProcessRequest RegExp f request = (False, [invalid_pattern_warning])"
proof -
  have "p \<noteq> []" using assms(2,3) by auto
  then obtain c cs where "p = c # cs" by (cases p) auto
  then show ?thesis
    using assms(1,2) by (simp add: shouldProcessRequest_def truthy_string_simps)
qed

lemma invalid_pattern_notify:
  assumes "urlPattern (requestFilter m) = Some p" and "RegExp p = None" and "RegExp [] \<noteq> None"
  shows "delivered (notify RegExp r m) = delivered m"
  using invalid_pattern_shouldProcessRequest [OF assms, of r]
  by (simp add: notify_def)

lemma invalid_pattern_deliver:
  assumes "urlPattern (requestFilter m) = Some p" and "RegExp p = None" and "RegExp [] \<noteq> None"
  shows "delivered (deliver RegExp prefix d m) = delivered m"
proof (cases d)
  case (Pair now e)
  have n: "\<And>r nr. delivered (notify RegExp r (m\<lparr>networkRequests := nr\<rparr>)) = delivered m"
    using invalid_pattern_notify [of "m\<lparr>networkRequests := _\<rparr>" p RegExp] assms by simp
  show ?thesis
    using Pair
    by (cases e)
       (simp_all add: requestWillBeSent_def responseReceived_def loadingFinished_def
          loadingFailed_def Let_def n split: option.splits)
qed

lemma invalid_pattern_run:
  assumes "urlPattern (requestFilter m) = Some p" and "RegExp p = None" and "RegExp [] \<noteq> None"
  shows "delivered (run RegExp prefix evs m) = delivered m"
  using assms(1)
proof (induction evs arbitrary: m)
  case Nil
  show ?case by simp
next
  case (Cons d evs)
  have "urlPattern (requestFilter (deliver RegExp prefix d m)) = Some p"
    using Cons.prems by (simp add: deliver_requestFilter)
  then have "delivered (run RegExp prefix evs (deliver RegExp prefix d m))
               = delivered (deliver RegExp prefix d m)"
    by (rule Cons.IH)
  then show ?case
    using invalid_pattern_deliver [OF Cons.prems assms(2,3)] by simp
qed

lemma literal_example: "literal_RegExp ''example'' = Some (contains ''example'')"
  by (simp add: literal_RegExp_def literal_char_def)

text \<open>
  Claim C2 (as amended). With no URL pattern in force (null or the empty string) and no
  type set, every record passes. With a non-empty URL pattern, the result is the match
  of the pattern, as a regular expression, against the URL of the record (false when
  the pattern does not compile), whatever the type set is. With no URL pattern in force
  and a type set, the record passes exactly when its type is in the set.
\<close>

theorem filter_evaluation:
  "(\<not> truthy_string (urlPattern f) \<and> types f = None
      \<longrightarrow> shouldProcessRequest RegExp f request = (True, []))
   \<and> (\<forall>p ts. p \<noteq> []
      \<longrightarrow> fst (shouldProcessRequest RegExp \<lparr>urlPattern = Some p, types = ts\<rparr> request)
            = (case RegExp p of Some test \<Rightarrow> test (url request) | None \<Rightarrow> False))
   \<and> (\<forall>ts. \<not> truthy_string (urlPattern f) \<and> types f = Some ts
      \<longrightarrow> shouldProcessRequest RegExp f request = (type request \<in> set ts, []))"
proof (intro conjI allI impI)
  assume "\<not> truthy_string (urlPattern f) \<and> types f = None"
  then show "shouldProcessRequest RegExp f request = (True, [])"
    by (simp add: shouldProcessRequest_def)
next
  fix p :: string and ts
  assume "p \<noteq> []"
  then obtain c cs where "p = c # cs" by (cases p) auto
  then show "fst (shouldProcessRequest RegExp \<lparr>urlPattern = Some p, types = ts\<rparr> request)
            = (case RegExp p of Some test \<Rightarrow> test (url request) | None \<Rightarrow> False)"
    by (simp add: shouldProcessRequest_def truthy_string_simps split: option.splits)
next
  fix ts
  assume a: "\<not> truthy_string (urlPattern f) \<and> types f = Some ts"
  then have "urlPattern f = None \<or> urlPattern f = Some []"
    by (cases "urlPattern f") (auto simp: truthy_string_def split: list.splits)
  then show "shouldProcessRequest RegExp f request = (type request \<in> set ts, [])"
    using a by (auto simp add: shouldProcessRequest_def truthy_string_simps)
qed

theorem filter_evaluation_witness:
  "shouldProcessRequest literal_RegExp \<lparr>urlPattern = None, types = None\<rparr> sample_request = (True, [])
   \<and> fst (shouldProcessRequest literal_RegExp
            \<lparr>urlPattern = Some ''example'', types = Some [''xhr'']\<rparr> sample_request) = True
   \<and> shouldProcessRequest literal_RegExp \<lparr>urlPattern = None, types = Some [''xhr'']\<rparr> sample_request
       = (False, [])"
  using filter_evaluation [of "\<lparr>urlPattern = None, types = None\<rparr>" literal_RegExp sample_request]
    filter_evaluation [of "\<lparr>urlPattern = None, types = Some [''xhr'']\<rparr>" literal_RegExp sample_request]
  by (simp add: truthy_string_simps literal_example sample_request_def)

text \<open>
  Claim C2 as stated fails for a pattern that is configured but empty: the empty
  regular expression matches every URL, yet the code falls through to the type set.
\<close>

theorem empty_pattern_counterexample:
  "fst (shouldProcessRequest literal_RegExp \<lparr>urlPattern = Some [], types = Some [''xhr'']\<rparr>
          sample_request)
   \<noteq> (case literal_RegExp [] of Some test \<Rightarrow> test (url sample_request) | None \<Rightarrow> False)"
  by (simp add: shouldProcessRequest_def truthy_string_simps literal_RegExp_def sample_request_def)

text \<open>
  Claim C4. A response-received, load-finished or load-failed event whose identifier
  has no record in the live table changes nothing: the whole monitor state, with the
  live table, the trace of callback calls and the trace of warnings, is the one before
  the event, and no branch of the listeners raises.
\<close>

theorem unknown_identifier_is_noop:
  assumes "networkRequests m (prefix @ requestId_of e) = None"
      and "kind_of e \<noteq> 0"
  shows "deliver RegExp prefix (now, e) m = m"
  using assms
  by (cases e) (simp_all add: responseReceived_def loadingFinished_def loadingFailed_def)

theorem unknown_identifier_is_noop_witness:
  "networkRequests new_BrowserMonitor ('''' @ requestId_of (LoadingFinished ''7'' 512)) = None
   \<and> kind_of (LoadingFinished ''7'' 512) \<noteq> 0
   \<and> deliver literal_RegExp '''' (''2024-05-01T10:00:00.000Z'', LoadingFinished ''7'' 512)
        new_BrowserMonitor = new_BrowserMonitor"
proof -
  have a: "networkRequests new_BrowserMonitor ('''' @ requestId_of (LoadingFinished ''7'' 512)) = None"
    by (simp add: new_BrowserMonitor_def)
  have b: "kind_of (LoadingFinished ''7'' 512) \<noteq> 0"
    by simp
  show ?thesis
    using a b unknown_identifier_is_noop [OF a b, of literal_RegExp "''2024-05-01T10:00:00.000Z''"]
    by simp
qed

text \<open>
  Claim C5. When the URL pattern of the filter does not compile (as \<^verbatim>\<open>"["\<close>; the empty
  pattern always compiles), the filter evaluation returns false for every record and
  writes one warning, without raising; and over any sequence of events the callback is
  never called.
\<close>

theorem invalid_pattern_rejects:
  assumes "urlPattern (requestFilter m) = Some p" and "RegExp p = None" and "RegExp [] \<noteq> None"
  shows "shouldProcessRequest RegExp (requestFilter m) request = (False, [invalid_pattern_warning])
     \<and> delivered (run RegExp prefix evs m) = delivered m"
  using invalid_pattern_shouldProcessRequest [OF assms] invalid_pattern_run [OF assms]
  by simp

theorem invalid_pattern_rejects_witness:
  "urlPattern (requestFilter bracket_monitor) = Some ''[''
   \<and> literal_RegExp ''['' = None \<and> literal_RegExp [] \<noteq> None
   \<and> shouldProcessRequest literal_RegExp (requestFilter bracket_monitor) sample_request
       = (False, [invalid_pattern_warning])
   \<and> delivered (run literal_RegExp '''' (sample_start # sample_merges) bracket_monitor) = []"
proof -
  have a: "urlPattern (requestFilter bracket_monitor) = Some ''[''"
    by (simp add: bracket_monitor_def setRequestFilter_def)
  have b: "literal_RegExp ''['' = None"
    by (simp add: literal_RegExp_def literal_char_def)
  have c: "literal_RegExp [] \<noteq> None"
    by (simp add: literal_RegExp_def)
  have d: "delivered bracket_monitor = []"
    by (simp add: bracket_monitor_def setRequestFilter_def setNetworkCallback_def
        new_BrowserMonitor_def)
  show ?thesis
    using a b c d
      invalid_pattern_rejects [OF a b c, of sample_request "''''" "sample_start # sample_merges"]
    by simp
qed

text \<open>
  Claim C9. A request-started event never calls the callback, whatever the filter; and
  over a sequence of events in which an identifier receives request-started events
  only, no call of the callback carries the record of that identifier.
\<close>

theorem request_started_never_fans_out:
  assumes "keys_are_ids m"
      and "\<forall>d \<in> set evs. requestId_of (snd d) = rid \<longrightarrow> kind_of (snd d) = 0"
  shows "delivered (deliver RegExp prefix (now, RequestWillBeSent rid' me u hs ty) m) = delivered m
     \<and> (\<exists>ds. delivered (run RegExp prefix evs m) = delivered m @ ds
           \<and> (\<forall>r \<in> set ds. id_req r \<noteq> prefix @ rid))"
proof -
  obtain ds where ds: "delivered (run RegExp prefix evs m) = delivered m @ ds"
    and from_merge: "\<forall>r \<in> set ds. \<exists>d \<in> set evs. kind_of (snd d) \<noteq> 0
                       \<and> id_req r = prefix @ requestId_of (snd d)"
    using run_delivered [OF assms(1), of RegExp prefix evs] by blast
  have "\<forall>r \<in> set ds. id_req r \<noteq> prefix @ rid"
    using from_merge assms(2) by fastforce
  then show ?thesis
    using ds by (auto simp add: requestWillBeSent_delivered)
qed

theorem request_started_never_fans_out_witness:
  "keys_are_ids example_monitor
   \<and> kind_of (snd sample_start) = 0
   \<and> fst (shouldProcessRequest literal_RegExp (requestFilter example_monitor) sample_request)
   \<and> delivered (run literal_RegExp '''' [sample_start] example_monitor) = []"
proof -
  have a: "keys_are_ids example_monitor"
    by (simp add: keys_are_ids_def example_monitor_def setRequestFilter_def
        setNetworkCallback_def new_BrowserMonitor_def)
  have b: "\<forall>d \<in> set [sample_start]. requestId_of (snd d) = ''7'' \<longrightarrow> kind_of (snd d) = 0"
    by (simp add: sample_start_def)
  have c: "fst (shouldProcessRequest literal_RegExp (requestFilter example_monitor) sample_request)"
    by (simp add: example_monitor_def setRequestFilter_def shouldProcessRequest_def
        truthy_string_simps literal_RegExp_def literal_char_def sample_request_def)
  have d: "delivered example_monitor = []"
    by (simp add: example_monitor_def setRequestFilter_def setNetworkCallback_def
        new_BrowserMonitor_def)
  show ?thesis
    using a c d
      request_started_never_fans_out [OF a b, of literal_RegExp "''''"
        "''2024-05-01T10:00:00.000Z''" "''7''" "''GET''" "''http://example/api''" "[]" "''document''"]
    by (simp add: sample_start_def)
qed

section \<open>Properties of the store\<close>

text \<open>
  Decimal text and back: \<^verbatim>\<open>Number\<close> and \<^verbatim>\<open>CAST(... AS INTEGER)\<close> both read an integer
  back from the digits \<^verbatim>\<open>toString\<close> wrote for it.
\<close>

lemma of_char_digit_char: "d < 10 \<Longrightarrow> (of_char (digit_char d) :: nat) = 48 + d"
  by (simp add: digit_char_def)

lemma is_digit_digit_char: "d < 10 \<Longrightarrow> is_digit (digit_char d)"
  by (simp add: is_digit_def less_eq_char_def of_char_digit_char)

lemma digit_value_digit_char: "d < 10 \<Longrightarrow> digit_value (digit_char d) = d"
  by (simp add: digit_value_def of_char_digit_char)

lemma digits_value_snoc: "digits_value (ds @ [c]) = 10 * digits_value ds + digit_value c"
  by (simp add: digits_value_def)

lemma nat_toString_digits: "\<forall>c \<in> set (nat_toString n). is_digit c"
proof (induction n rule: nat_toString.induct)
  case (1 n)
  show ?case
  proof (cases "n < 10")
    case True
    then show ?thesis by (simp add: nat_toString.simps [of n] is_digit_digit_char)
  next
    case False
    then show ?thesis using 1 by (simp add: nat_toString.simps [of n] is_digit_digit_char)
  qed
qed

lemma nat_toString_value: "digits_value (nat_toString n) = n"
proof (induction n rule: nat_toString.induct)
  case (1 n)
  show ?case
  proof (cases "n < 10")
    case True
    then show ?thesis
      by (simp add: nat_toString.simps [of n] digits_value_def digit_value_digit_char)
  next
    case False
    then have "digits_value (nat_toString (n div 10)) = n div 10" using 1 by simp
    then show ?thesis
      using False by (simp add: nat_toString.simps [of n] digits_value_snoc digit_value_digit_char)
  qed
qed

lemma nat_toString_nonempty: "nat_toString n \<noteq> []"
  by (simp add: nat_toString.simps [of n])

lemma is_digit_not_sign: "is_digit c \<Longrightarrow> c \<noteq> CHR ''-'' \<and> c \<noteq> CHR ''+'' \<and> \<not> sql_space c"
  by (auto simp add: is_digit_def sql_space_def less_eq_char_def)

lemma takeWhile_digits: "\<forall>c \<in> set ds. is_digit c \<Longrightarrow> takeWhile is_digit ds = ds"
  by simp

lemma decimal_text_nonempty: "decimal_text i \<noteq> []"
  by (simp add: decimal_text_def nat_toString_nonempty)

lemma is_decimal_decimal_text: "is_decimal (decimal_text i)"
proof (cases "i < 0")
  case True
  then show ?thesis
    using nat_toString_digits [of "nat (- i)"]
    by (simp add: is_decimal_def decimal_text_def nat_toString_nonempty list_all_iff)
next
  case False
  obtain c cs where cs: "nat_toString (nat i) = c # cs"
    using nat_toString_nonempty [of "nat i"] by (cases "nat_toString (nat i)") auto
  then have all: "\<forall>x \<in> set (c # cs). is_digit x"
    using nat_toString_digits [of "nat i"] by simp
  then have "c \<noteq> CHR ''-''" using is_digit_not_sign by auto
  then show ?thesis
    using False cs all by (simp add: is_decimal_def decimal_text_def list_all_iff)
qed

lemma decimal_value_decimal_text: "decimal_value (decimal_text i) = i"
proof (cases "i < 0")
  case True
  then show ?thesis
    by (simp add: decimal_value_def decimal_text_def nat_toString_value)
next
  case False
  obtain c cs where cs: "nat_toString (nat i) = c # cs"
    using nat_toString_nonempty [of "nat i"] by (cases "nat_toString (nat i)") auto
  then have "is_digit c" using nat_toString_digits [of "nat i"] by simp
  then have "c \<noteq> CHR ''-''" using is_digit_not_sign by blast
  moreover have "digits_value (c # cs) = nat i" using nat_toString_value [of "nat i"] cs by simp
  ultimately show ?thesis
    using False cs by (simp add: decimal_value_def decimal_text_def)
qed

lemma js_Number_decimal_text: "\<bar>i\<bar> < 2 ^ 53 \<Longrightarrow> js_Number B (decimal_text i) = i"
  by (simp add: js_Number_def is_decimal_decimal_text decimal_value_decimal_text)

lemma int64_small: "\<bar>i\<bar> < 2 ^ 53 \<Longrightarrow> int64 i = i"
  by (simp add: int64_def)

lemma sql_cast_integer_decimal_text:
  assumes "\<bar>i\<bar> < 2 ^ 53"
  shows "sql_cast_integer (decimal_text i) = i"
proof (cases "i < 0")
  case True
  have "\<not> sql_space CHR ''-''"
    by (simp add: sql_space_def)
  then show ?thesis
    using True int64_small [OF assms]
    by (simp add: sql_cast_integer_def decimal_text_def nat_toString_value
        takeWhile_digits nat_toString_digits)
next
  case False
  obtain c cs where cs: "nat_toString (nat i) = c # cs"
    using nat_toString_nonempty [of "nat i"] by (cases "nat_toString (nat i)") auto
  then have d: "is_digit c" using nat_toString_digits [of "nat i"] by simp
  then have c: "c \<noteq> CHR ''-''" "c \<noteq> CHR ''+''" "\<not> sql_space c"
    using is_digit_not_sign by blast+
  have "\<forall>x \<in> set cs. is_digit x"
    using nat_toString_digits [of "nat i"] cs by simp
  then have tw: "takeWhile is_digit cs = cs"
    by (rule takeWhile_digits)
  have "digits_value (c # cs) = nat i" using nat_toString_value [of "nat i"] cs by simp
  then show ?thesis
    using False cs c d int64_small [OF assms]
    by (simp add: sql_cast_integer_def decimal_text_def tw)
qed

lemma Number_toString_small: "\<bar>i\<bar> < 2 ^ 53 \<Longrightarrow> Number_toString B i = decimal_text i"
  by (simp add: Number_toString_def)

lemma number_roundtrip_small: "\<bar>i\<bar> < 2 ^ 53 \<Longrightarrow> number_roundtrip B i"
  by (simp add: number_roundtrip_def Number_toString_small decimal_text_nonempty
      js_Number_decimal_text)

text \<open>The row of a record and the record of that row.\<close>

lemma or_string_Some: "or_string (Some s) [] = s"
  by (cases s) (simp_all add: or_string_def)

lemma or_string_bound_value:
  "or_string (bound_value v) [] = (case v of Defined (c # cs) \<Rightarrow> c # cs | _ \<Rightarrow> [])"
  by (cases v) (simp_all add: or_string_def bound_value_def split: list.splits)

lemma column_value_bound_value: "column_value (bound_value v) = nulled v"
  by (cases v) (simp_all add: column_value_def bound_value_def nulled_def)

lemma parse_truthy:
  "json_roundtrip B h \<Longrightarrow>
     (case Some (JSON_stringify B h) of Some (c # cs) \<Rightarrow> JSON_parse B (c # cs) | _ \<Rightarrow> []) = h"
  by (cases "JSON_stringify B h") (auto simp add: json_roundtrip_def)

lemma status_truthy:
  "number_roundtrip B i \<Longrightarrow>
     (case Some (Number_toString B i) of Some (c # cs) \<Rightarrow> js_Number B (c # cs) | _ \<Rightarrow> 0) = i"
  by (cases "Number_toString B i") (auto simp add: number_roundtrip_def)

lemma readback_eq:
  assumes "json_roundtrip B (headers r)" and "json_roundtrip B (responseHeaders r)"
      and "number_roundtrip B (status r)"
  shows "readback B r =
           r\<lparr>responseBody := Defined (case responseBody r of Defined (c # cs) \<Rightarrow> c # cs | _ \<Rightarrow> []),
             body := nulled (body r),
             encodedDataLength := nulled (encodedDataLength r),
             error := (case error r of Some (c # cs) \<Rightarrow> Some (c # cs) | _ \<Rightarrow> None)\<rparr>"
  using parse_truthy [OF assms(1)] parse_truthy [OF assms(2)] status_truthy [OF assms(3)]
  by (simp add: readback_def row_to_request_def bound_row_def or_string_Some
      or_string_bound_value column_value_bound_value)

lemma readback_timestamp: "timestamp (row_to_request B row) = timestamp_row row"
  by (simp add: row_to_request_def)

lemma readback_id_req: "id_req (readback B r) = id_req r"
  by (simp add: readback_def row_to_request_def bound_row_def)

lemma readback_status: "\<bar>status r\<bar> < 2 ^ 53 \<Longrightarrow> status (readback B r) = status r"
  using status_truthy [OF number_roundtrip_small, of "status r" B]
  by (simp add: readback_def row_to_request_def bound_row_def)

lemma id_row_bound_row: "id_row (bound_row B r) = id_req r"
  by (simp add: bound_row_def)

lemma timestamp_row_bound_row: "timestamp_row (bound_row B r) = timestamp r"
  by (simp add: bound_row_def)

lemma status_row_bound_row: "status_row (bound_row B r) = Some (Number_toString B (status r))"
  by (simp add: bound_row_def)

text \<open>Queries with no sort, limit, offset or URL pattern.\<close>

lemma where_clause_empty: "where_clause B empty_query row"
  by (simp add: where_clause_def empty_query_def when_string_def when_number_def when_status_def)

lemma order_by_default: "sortBy_q q = None \<Longrightarrow> order_by q rows = rev (sort_key timestamp_row rows)"
  by (simp add: order_by_def)

lemma limit_offset_none: "limit_q q = None \<Longrightarrow> offset_q q = None \<Longrightarrow> limit_offset q rows = rows"
  by (simp add: limit_offset_def)

lemma queryRequests_plain:
  assumes "urlPattern_q q = None" and "limit_q q = None" and "offset_q q = None"
      and "sortBy_q q = None"
  shows "queryRequests B q db
           = Inr (map (row_to_request B) (rev (sort_key timestamp_row (filter (where_clause B q) db))))"
  using assms
  by (simp add: queryRequests_def truthy_string_def truthy_number_def order_by_default
      limit_offset_none)

lemma queryRequests_empty:
  "queryRequests B empty_query db = Inr (map (row_to_request B) (rev (sort_key timestamp_row db)))"
proof -
  have "filter (where_clause B empty_query) db = db"
    by (simp add: where_clause_empty)
  then show ?thesis
    using queryRequests_plain [of empty_query B db] by (simp add: empty_query_def)
qed

lemma descending_result:
  "sorted (rev (map timestamp (map (row_to_request B) (rev (sort_key timestamp_row rows)))))"
proof -
  have "map timestamp (map (row_to_request B) (rev (sort_key timestamp_row rows)))
          = rev (map timestamp_row (sort_key timestamp_row rows))"
    by (simp add: rev_map readback_timestamp comp_def)
  then show ?thesis by simp
qed

lemma mset_result:
  "mset (map (row_to_request B) (rev (sort_key timestamp_row rows)))
     = mset (map (row_to_request B) rows)"
proof -
  have "mset (rev (sort_key timestamp_row rows)) = mset rows"
    by simp
  then have "image_mset (row_to_request B) (mset (rev (sort_key timestamp_row rows)))
               = image_mset (row_to_request B) (mset rows)"
    by (rule arg_cong)
  then show ?thesis by simp
qed

lemma mset_readback:
  "mset (map (row_to_request B) (rev (sort_key timestamp_row (map (bound_row B) reqs))))
     = mset (map (readback B) reqs)"
proof -
  have "map (row_to_request B) (map (bound_row B) reqs) = map (readback B) reqs"
    by (simp add: readback_def)
  then show ?thesis
    using mset_result [of B "map (bound_row B) reqs"] by (simp only:)
qed

text \<open>
  The status conditions on the row of a saved record whose status is written in plain
  digits: the range is on the number, each bound applied when it is not 0.
\<close>

lemma when_number_bounds:
  "(when_number lo (\<lambda>n. n \<le> s) \<and> when_number hi (\<lambda>n. s \<le> n)) = in_status_range lo hi s"
  by (cases lo; cases hi) (auto simp add: when_number_def in_status_range_def)

lemma where_clause_status:
  assumes "\<bar>status r\<bar> < 2 ^ 53"
  shows "where_clause B (empty_query\<lparr>status_q := st, minStatus_q := lo, maxStatus_q := hi\<rparr>)
           (bound_row B r)
         = (in_status_range lo hi (status r)
            \<and> when_status B st (\<lambda>s. Number_toString B (status r) = s))"
proof -
  have "where_clause B (empty_query\<lparr>status_q := st, minStatus_q := lo, maxStatus_q := hi\<rparr>)
           (bound_row B r)
         = (when_status B st (\<lambda>s. Number_toString B (status r) = s)
            \<and> when_number lo (\<lambda>n. n \<le> status r) \<and> when_number hi (\<lambda>n. status r \<le> n))"
    using assms
    by (simp add: where_clause_def empty_query_def when_string_def not_null_def
        status_row_bound_row Number_toString_small sql_cast_integer_decimal_text when_number_def)
  then show ?thesis
    using when_number_bounds [of lo "status r" hi] by auto
qed

lemma query_by_status:
  assumes "\<forall>r \<in> set reqs. \<bar>status r\<bar> < 2 ^ 53"
  shows "queryRequests B (empty_query\<lparr>status_q := st, minStatus_q := lo, maxStatus_q := hi\<rparr>)
           (map (bound_row B) reqs)
         = Inr (map (row_to_request B) (rev (sort_key timestamp_row (map (bound_row B)
             (filter (\<lambda>r. in_status_range lo hi (status r)
                          \<and> when_status B st (\<lambda>s. Number_toString B (status r) = s)) reqs)))))"
proof -
  let ?q = "empty_query\<lparr>status_q := st, minStatus_q := lo, maxStatus_q := hi\<rparr>"
  have "filter (where_clause B ?q \<circ> bound_row B) reqs
          = filter (\<lambda>r. in_status_range lo hi (status r)
                        \<and> when_status B st (\<lambda>s. Number_toString B (status r) = s)) reqs"
    using assms by (intro filter_cong) (simp_all add: where_clause_status)
  then have "filter (where_clause B ?q) (map (bound_row B) reqs)
          = map (bound_row B) (filter (\<lambda>r. in_status_range lo hi (status r)
                        \<and> when_status B st (\<lambda>s. Number_toString B (status r) = s)) reqs)"
    by (simp only: filter_map)
  then show ?thesis
    using queryRequests_plain [of ?q B "map (bound_row B) reqs"]
    by (simp add: empty_query_def)
qed

lemma four_saves:
  assumes "distinct [id_req r1, id_req r2, id_req r3, id_req r4]"
  shows "saveRequest B r4 (saveRequest B r3 (saveRequest B r2 (saveRequest B r1 [])))
           = map (bound_row B) [r1, r2, r3, r4]"
  using assms by (auto simp add: saveRequest_def id_row_bound_row)

text \<open>The sample data.\<close>

lemma sample_ids:
  "id_req sample_200 = ''1''" "id_req sample_404 = ''2''"
  "id_req sample_500 = ''3''" "id_req sample_201 = ''4''"
  by (simp_all add: sample_200_def sample_404_def sample_500_def sample_201_def status_sample_def)

lemma sample_statuses:
  "status sample_200 = 200" "status sample_404 = 404"
  "status sample_500 = 500" "status sample_201 = 201"
  by (simp_all add: sample_200_def sample_404_def sample_500_def sample_201_def status_sample_def)

lemma sample_timestamps:
  "timestamp sample_200 = ''2024-05-01T10:00:01.000Z''"
  "timestamp sample_404 = ''2024-05-01T10:00:02.000Z''"
  "timestamp sample_500 = ''2024-05-01T10:00:03.000Z''"
  "timestamp sample_201 = ''2024-05-01T10:00:04.000Z''"
  by (simp_all add: sample_200_def sample_404_def sample_500_def sample_201_def status_sample_def)

lemma sample_rows_descending:
  "rev (sort_key timestamp_row sample_rows)
     = map (bound_row sample_builtins) [sample_201, sample_500, sample_404, sample_200]"
  by (simp add: sample_rows_def timestamp_row_bound_row sample_timestamps)

lemma sample_json_empty: "json_roundtrip sample_builtins []"
  unfolding json_roundtrip_def sample_builtins_def by (simp, code_simp)

lemma sample_json_accept: "json_roundtrip sample_builtins [(''Accept'', ''*/*'')]"
  unfolding json_roundtrip_def sample_builtins_def by (simp, code_simp)

lemma sample_json_content:
  "json_roundtrip sample_builtins
     [(''Content-Type'', ''application/json''), (''Cache-Control'', ''no-cache'')]"
  unfolding json_roundtrip_def sample_builtins_def by (simp, code_simp)

text \<open>
  Claim C3 (as amended). After \<open>saveRequest r\<close> the empty query succeeds and its result
  contains \<open>r\<close> with an absent response body replaced by the empty string, an empty
  error replaced by null, and an absent body or encoded data length replaced by null,
  all other fields equal; so it contains \<open>r\<close> itself whenever \<open>r\<close> has a response
  body, a body and an encoded data length and its error is not the empty string. The
  runtime is assumed to read back the two header objects of \<open>r\<close> from their JSON text
  and the status of \<open>r\<close> from its text, as it does for every status that is a safe
  integer.
\<close>

theorem save_query_roundtrip:
  assumes "json_roundtrip B (headers r)" and "json_roundtrip B (responseHeaders r)"
      and "number_roundtrip B (status r)"
  shows "\<exists>rs. queryRequests B empty_query (saveRequest B r db) = Inr rs
      \<and> r\<lparr>responseBody := Defined (case responseBody r of Defined (c # cs) \<Rightarrow> c # cs | _ \<Rightarrow> []),
           body := nulled (body r),
           encodedDataLength := nulled (encodedDataLength r),
           error := (case error r of Some (c # cs) \<Rightarrow> Some (c # cs) | _ \<Rightarrow> None)\<rparr> \<in> set rs
      \<and> ((\<exists>b. responseBody r = Defined b) \<and> body r \<noteq> Undefined
           \<and> encodedDataLength r \<noteq> Undefined \<and> error r \<noteq> Some [] \<longrightarrow> r \<in> set rs)"
proof -
  let ?n = "r\<lparr>responseBody := Defined (case responseBody r of Defined (c # cs) \<Rightarrow> c # cs | _ \<Rightarrow> []),
           body := nulled (body r),
           encodedDataLength := nulled (encodedDataLength r),
           error := (case error r of Some (c # cs) \<Rightarrow> Some (c # cs) | _ \<Rightarrow> None)\<rparr>"
  let ?rs = "map (row_to_request B) (rev (sort_key timestamp_row (saveRequest B r db)))"
  have q: "queryRequests B empty_query (saveRequest B r db) = Inr ?rs"
    by (rule queryRequests_empty)
  have "bound_row B r \<in> set (saveRequest B r db)"
    by (simp add: saveRequest_def)
  then have "readback B r \<in> set ?rs"
    by (simp add: readback_def)
  then have n: "?n \<in> set ?rs"
    using readback_eq [OF assms] by simp
  have "(\<exists>b. responseBody r = Defined b) \<and> body r \<noteq> Undefined
           \<and> encodedDataLength r \<noteq> Undefined \<and> error r \<noteq> Some [] \<longrightarrow> ?n = r"
  proof
    assume a: "(\<exists>b. responseBody r = Defined b) \<and> body r \<noteq> Undefined
           \<and> encodedDataLength r \<noteq> Undefined \<and> error r \<noteq> Some []"
    then obtain b where b: "responseBody r = Defined b" by auto
    have rb: "Defined (case responseBody r of Defined (c # cs) \<Rightarrow> c # cs | _ \<Rightarrow> [])
                = responseBody r"
      using b by (cases b) simp_all
    have bo: "nulled (body r) = body r"
      using a by (cases "body r") (simp_all add: nulled_def)
    have en: "nulled (encodedDataLength r) = encodedDataLength r"
      using a by (cases "encodedDataLength r") (simp_all add: nulled_def)
    have er: "(case error r of Some (c # cs) \<Rightarrow> Some (c # cs) | _ \<Rightarrow> None) = error r"
      using a by (cases "error r") (auto split: list.splits)
    have "?n = r\<lparr>responseBody := responseBody r, body := body r,
                   encodedDataLength := encodedDataLength r, error := error r\<rparr>"
      by (simp only: rb bo en er)
    then show "?n = r"
      by simp
  qed
  then show ?thesis
    using q n by auto
qed

lemma sample_saved_roundtrips:
  "json_roundtrip sample_builtins (headers sample_saved)"
  "json_roundtrip sample_builtins (responseHeaders sample_saved)"
  "number_roundtrip sample_builtins (status sample_saved)"
  using sample_json_accept sample_json_content number_roundtrip_small [of 200 sample_builtins]
  by (simp_all add: sample_saved_def sample_request_def)

lemma sample_request_roundtrips:
  "json_roundtrip sample_builtins (headers sample_request)"
  "json_roundtrip sample_builtins (responseHeaders sample_request)"
  "number_roundtrip sample_builtins (status sample_request)"
  using sample_json_empty number_roundtrip_small [of 0 sample_builtins]
  by (simp_all add: sample_request_def)

lemma sample_fixture_roundtrips:
  "json_roundtrip sample_builtins (headers sample_fixture)"
  "json_roundtrip sample_builtins (responseHeaders sample_fixture)"
  "number_roundtrip sample_builtins (status sample_fixture)"
  using sample_saved_roundtrips by (simp_all add: sample_fixture_def)

theorem save_query_roundtrip_witness:
  "json_roundtrip sample_builtins (headers sample_saved)
   \<and> json_roundtrip sample_builtins (responseHeaders sample_saved)
   \<and> number_roundtrip sample_builtins (status sample_saved)
   \<and> queryRequests sample_builtins empty_query
        (saveRequest sample_builtins sample_saved [bound_row sample_builtins sample_404])
      = Inr [readback sample_builtins sample_404, sample_saved]"
proof -
  note h = sample_saved_roundtrips
  have c: "saveRequest sample_builtins sample_saved [bound_row sample_builtins sample_404]
            = [bound_row sample_builtins sample_404, bound_row sample_builtins sample_saved]"
    by (simp add: saveRequest_def id_row_bound_row sample_saved_def sample_404_def
        status_sample_def sample_request_def)
  have d: "rev (sort_key timestamp_row
             [bound_row sample_builtins sample_404, bound_row sample_builtins sample_saved])
           = [bound_row sample_builtins sample_404, bound_row sample_builtins sample_saved]"
    by (simp add: timestamp_row_bound_row sample_saved_def sample_404_def
        status_sample_def sample_request_def)
  have e: "row_to_request sample_builtins (bound_row sample_builtins sample_saved) = sample_saved"
    using readback_eq [OF h]
    by (simp add: readback_def sample_saved_def sample_request_def nulled_def)
  have "queryRequests sample_builtins empty_query
          (saveRequest sample_builtins sample_saved [bound_row sample_builtins sample_404])
        = Inr (map (row_to_request sample_builtins)
            [bound_row sample_builtins sample_404, bound_row sample_builtins sample_saved])"
    by (simp only: queryRequests_empty c d)
  then have res: "queryRequests sample_builtins empty_query
          (saveRequest sample_builtins sample_saved [bound_row sample_builtins sample_404])
        = Inr [readback sample_builtins sample_404, sample_saved]"
    by (simp add: e readback_def)
  show ?thesis
    using h res save_query_roundtrip [OF h, of "[bound_row sample_builtins sample_404]"]
    by (simp only: simp_thms)
qed

text \<open>
  Claim C3 as stated fails on the record a request-started event creates (no response
  body, body or encoded data length, error the empty string): the record that comes
  back has response body \<^verbatim>\<open>''\<close> and null in the three other fields. It fails as well on
  a record with a response body and a null error that has no body and no encoded data
  length: they come back null.
\<close>

theorem save_query_roundtrip_counterexample:
  "queryRequests sample_builtins empty_query (saveRequest sample_builtins sample_request [])
     = Inr [sample_request\<lparr>responseBody := Defined [], body := Null,
              encodedDataLength := Null, error := None\<rparr>]
   \<and> sample_request\<lparr>responseBody := Defined [], body := Null,
              encodedDataLength := Null, error := None\<rparr> \<noteq> sample_request
   \<and> queryRequests sample_builtins empty_query (saveRequest sample_builtins sample_fixture [])
     = Inr [sample_fixture\<lparr>body := Null, encodedDataLength := Null\<rparr>]
   \<and> sample_fixture\<lparr>body := Null, encodedDataLength := Null\<rparr> \<noteq> sample_fixture"
proof -
  have 1: "readback sample_builtins sample_request
          = sample_request\<lparr>responseBody := Defined [], body := Null,
              encodedDataLength := Null, error := None\<rparr>"
    using readback_eq [OF sample_request_roundtrips]
    by (simp add: sample_request_def nulled_def)
  have 2: "sample_request\<lparr>responseBody := Defined [], body := Null,
              encodedDataLength := Null, error := None\<rparr> \<noteq> sample_request"
    by (simp add: sample_request_def)
  have 3: "readback sample_builtins sample_fixture
          = sample_fixture\<lparr>body := Null, encodedDataLength := Null\<rparr>"
    using readback_eq [OF sample_fixture_roundtrips]
    by (simp add: sample_fixture_def sample_saved_def sample_request_def nulled_def)
  have 4: "sample_fixture\<lparr>body := Null, encodedDataLength := Null\<rparr> \<noteq> sample_fixture"
    by (simp add: sample_fixture_def sample_saved_def sample_request_def)
  have 5: "queryRequests sample_builtins empty_query (saveRequest sample_builtins r [])
             = Inr [readback sample_builtins r]" for r
    by (simp add: queryRequests_empty saveRequest_def readback_def)
  show ?thesis
    using 2 4 by (simp only: 5 1 3 simp_thms)
qed














text \<open>
  Claim C7 (as amended). In a store holding four saved records with statuses 200, 404,
  500 and 201, the query with \<open>minStatus\<close> 400 alone returns the 404 and the 500 record
  and nothing else, by timestamp descending. In general, over saved records whose status
  is a safe integer (below \<open>2 ^ 53\<close> in magnitude), a query with any
  \<open>minStatus\<close>, \<open>maxStatus\<close> and exact status returns exactly the records whose status
  is not below a \<open>minStatus\<close> that is given and not 0, not above a \<open>maxStatus\<close> that
  is given and not 0, and meets the exact-status condition, by timestamp descending: a
  bound of 0 imposes nothing.
\<close>

theorem status_range:
  "(distinct [id_req r1, id_req r2, id_req r3, id_req r4]
      \<and> status r1 = 200 \<and> status r2 = 404 \<and> status r3 = 500 \<and> status r4 = 201
    \<longrightarrow> (\<exists>rs. queryRequests B (empty_query\<lparr>minStatus_q := Some 400\<rparr>)
                 (saveRequest B r4 (saveRequest B r3 (saveRequest B r2 (saveRequest B r1 []))))
               = Inr rs
            \<and> mset rs = {#readback B r2, readback B r3#}
            \<and> mset (map id_req rs) = {#id_req r2, id_req r3#}
            \<and> mset (map status rs) = {#404, 500#}
            \<and> sorted (rev (map timestamp rs))))
   \<and> ((\<forall>r \<in> set reqs. \<bar>status r\<bar> < 2 ^ 53)
    \<longrightarrow> (\<exists>rs. queryRequests B
                 (empty_query\<lparr>status_q := st, minStatus_q := lo, maxStatus_q := hi\<rparr>)
                 (map (bound_row B) reqs)
               = Inr rs
            \<and> mset rs = mset (map (readback B)
                 (filter (\<lambda>r. in_status_range lo hi (status r)
                              \<and> when_status B st (\<lambda>s. Number_toString B (status r) = s)) reqs))
            \<and> sorted (rev (map timestamp rs))))"
proof (intro conjI impI)
  assume a: "distinct [id_req r1, id_req r2, id_req r3, id_req r4]
      \<and> status r1 = 200 \<and> status r2 = 404 \<and> status r3 = 500 \<and> status r4 = 201"
  let ?rs = "map (row_to_request B) (rev (sort_key timestamp_row (map (bound_row B) [r2, r3])))"
  have q: "empty_query\<lparr>minStatus_q := Some 400\<rparr>
             = empty_query\<lparr>status_q := None, minStatus_q := Some 400, maxStatus_q := None\<rparr>"
    by (simp add: empty_query_def)
  have small: "\<forall>r \<in> set [r1, r2, r3, r4]. \<bar>status r\<bar> < 2 ^ 53"
    using a by simp
  have f: "filter (\<lambda>r. in_status_range (Some 400) None (status r)
                      \<and> when_status B None (\<lambda>s. Number_toString B (status r) = s))
             [r1, r2, r3, r4] = [r2, r3]"
    using a by (simp add: when_status_def in_status_range_def)
  have "queryRequests B (empty_query\<lparr>minStatus_q := Some 400\<rparr>)
          (saveRequest B r4 (saveRequest B r3 (saveRequest B r2 (saveRequest B r1 [])))) = Inr ?rs"
    using a query_by_status [OF small, where B = B and st = None and lo = "Some 400" and hi = None]
    by (simp only: q four_saves f)
  moreover have m: "mset ?rs = {#readback B r2, readback B r3#}"
    using mset_readback [of B "[r2, r3]"] by simp
  moreover have "mset (map id_req ?rs) = {#id_req r2, id_req r3#}"
  proof -
    have "mset (map id_req ?rs) = image_mset id_req (mset ?rs)"
      by simp
    then show ?thesis
      by (simp only: m) (simp add: readback_id_req)
  qed
  moreover have "mset (map status ?rs) = {#404, 500#}"
  proof -
    have "mset (map status ?rs) = image_mset status (mset ?rs)"
      by simp
    moreover have "status (readback B r2) = 404" "status (readback B r3) = 500"
      using a readback_status [of r2 B] readback_status [of r3 B] by simp_all
    ultimately show ?thesis
      by (simp only: m) simp
  qed
  moreover have "sorted (rev (map timestamp ?rs))"
    by (rule descending_result)
  ultimately show "\<exists>rs. queryRequests B (empty_query\<lparr>minStatus_q := Some 400\<rparr>)
                 (saveRequest B r4 (saveRequest B r3 (saveRequest B r2 (saveRequest B r1 []))))
               = Inr rs
            \<and> mset rs = {#readback B r2, readback B r3#}
            \<and> mset (map id_req rs) = {#id_req r2, id_req r3#}
            \<and> mset (map status rs) = {#404, 500#}
            \<and> sorted (rev (map timestamp rs))"
    by blast
next
  assume small: "\<forall>r \<in> set reqs. \<bar>status r\<bar> < 2 ^ 53"
  let ?P = "\<lambda>r. in_status_range lo hi (status r)
                  \<and> when_status B st (\<lambda>s. Number_toString B (status r) = s)"
  let ?rs = "map (row_to_request B) (rev (sort_key timestamp_row (map (bound_row B) (filter ?P reqs))))"
  have "queryRequests B
                 (empty_query\<lparr>status_q := st, minStatus_q := lo, maxStatus_q := hi\<rparr>)
                 (map (bound_row B) reqs) = Inr ?rs"
    using query_by_status [OF small] .
  moreover have "mset ?rs = mset (map (readback B) (filter ?P reqs))"
    by (rule mset_readback)
  moreover have "sorted (rev (map timestamp ?rs))"
    by (rule descending_result)
  ultimately show "\<exists>rs. queryRequests B
                 (empty_query\<lparr>status_q := st, minStatus_q := lo, maxStatus_q := hi\<rparr>)
                 (map (bound_row B) reqs)
               = Inr rs
            \<and> mset rs = mset (map (readback B) (filter ?P reqs))
            \<and> sorted (rev (map timestamp rs))"
    by blast
qed

lemma sample_small: "\<forall>r \<in> set [sample_200, sample_404, sample_500, sample_201]. \<bar>status r\<bar> < 2 ^ 53"
  by (simp add: sample_statuses)

lemma sample_status_query:
  assumes "filter (\<lambda>r. in_status_range lo hi (status r)
                       \<and> when_status sample_builtins None
                            (\<lambda>s. Number_toString sample_builtins (status r) = s))
             [sample_200, sample_404, sample_500, sample_201] = kept"
      and "rev (sort_key timestamp_row (map (bound_row sample_builtins) kept))
             = map (bound_row sample_builtins) ordered"
  shows "queryRequests sample_builtins
           (empty_query\<lparr>status_q := None, minStatus_q := lo, maxStatus_q := hi\<rparr>) sample_rows
         = Inr (map (readback sample_builtins) ordered)"
proof -
  have "queryRequests sample_builtins
           (empty_query\<lparr>status_q := None, minStatus_q := lo, maxStatus_q := hi\<rparr>)
           (map (bound_row sample_builtins) [sample_200, sample_404, sample_500, sample_201])
         = Inr (map (row_to_request sample_builtins)
             (rev (sort_key timestamp_row (map (bound_row sample_builtins) kept))))"
    using query_by_status [OF sample_small, where B = sample_builtins and st = None
        and lo = lo and hi = hi]
    by (simp only: assms(1))
  then have "queryRequests sample_builtins
           (empty_query\<lparr>status_q := None, minStatus_q := lo, maxStatus_q := hi\<rparr>)
           (map (bound_row sample_builtins) [sample_200, sample_404, sample_500, sample_201])
         = Inr (map (row_to_request sample_builtins) (map (bound_row sample_builtins) ordered))"
    by (simp only: assms(2))
  then show ?thesis
    by (simp add: sample_rows_def readback_def)
qed

theorem status_range_witness:
  "distinct [id_req sample_200, id_req sample_404, id_req sample_500, id_req sample_201]
   \<and> queryRequests sample_builtins (empty_query\<lparr>minStatus_q := Some 400\<rparr>)
        (saveRequest sample_builtins sample_201 (saveRequest sample_builtins sample_500
          (saveRequest sample_builtins sample_404 (saveRequest sample_builtins sample_200 []))))
      = Inr [readback sample_builtins sample_500, readback sample_builtins sample_404]
   \<and> queryRequests sample_builtins
        (empty_query\<lparr>status_q := None, minStatus_q := Some 404, maxStatus_q := None\<rparr>)
        sample_rows
      = Inr [readback sample_builtins sample_500, readback sample_builtins sample_404]
   \<and> queryRequests sample_builtins
        (empty_query\<lparr>status_q := None, minStatus_q := None, maxStatus_q := Some 404\<rparr>)
        sample_rows
      = Inr [readback sample_builtins sample_201, readback sample_builtins sample_404,
             readback sample_builtins sample_200]
   \<and> queryRequests sample_builtins
        (empty_query\<lparr>status_q := None, minStatus_q := Some 400, maxStatus_q := Some 499\<rparr>)
        sample_rows
      = Inr [readback sample_builtins sample_404]"
proof -
  have a: "distinct [id_req sample_200, id_req sample_404, id_req sample_500, id_req sample_201]"
    by (simp add: sample_ids)
  have s: "saveRequest sample_builtins sample_201 (saveRequest sample_builtins sample_500
          (saveRequest sample_builtins sample_404 (saveRequest sample_builtins sample_200 [])))
        = sample_rows"
    using a by (simp only: four_saves sample_rows_def)
  have q: "empty_query\<lparr>minStatus_q := Some 400\<rparr>
             = empty_query\<lparr>status_q := None, minStatus_q := Some 400, maxStatus_q := None\<rparr>"
    by (simp add: empty_query_def)
  have r1: "queryRequests sample_builtins
        (empty_query\<lparr>status_q := None, minStatus_q := Some 400, maxStatus_q := None\<rparr>) sample_rows
      = Inr (map (readback sample_builtins) [sample_500, sample_404])"
    by (rule sample_status_query [where kept = "[sample_404, sample_500]"])
       (simp_all add: when_status_def in_status_range_def sample_statuses
          timestamp_row_bound_row sample_timestamps)
  have r2: "queryRequests sample_builtins
        (empty_query\<lparr>status_q := None, minStatus_q := Some 404, maxStatus_q := None\<rparr>) sample_rows
      = Inr (map (readback sample_builtins) [sample_500, sample_404])"
    by (rule sample_status_query [where kept = "[sample_404, sample_500]"])
       (simp_all add: when_status_def in_status_range_def sample_statuses
          timestamp_row_bound_row sample_timestamps)
  have r3: "queryRequests sample_builtins
        (empty_query\<lparr>status_q := None, minStatus_q := None, maxStatus_q := Some 404\<rparr>) sample_rows
      = Inr (map (readback sample_builtins) [sample_201, sample_404, sample_200])"
    by (rule sample_status_query [where kept = "[sample_200, sample_404, sample_201]"])
       (simp_all add: when_status_def in_status_range_def sample_statuses
          timestamp_row_bound_row sample_timestamps)
  have r4: "queryRequests sample_builtins
        (empty_query\<lparr>status_q := None, minStatus_q := Some 400, maxStatus_q := Some 499\<rparr>) sample_rows
      = Inr (map (readback sample_builtins) [sample_404])"
    by (rule sample_status_query [where kept = "[sample_404]"])
       (simp_all add: when_status_def in_status_range_def sample_statuses
          timestamp_row_bound_row sample_timestamps)
  show ?thesis
    using a r1 r2 r3 r4
      status_range [where B = sample_builtins and ?r1.0 = sample_200 and ?r2.0 = sample_404
        and ?r3.0 = sample_500 and ?r4.0 = sample_201 and lo = "Some 404" and hi = None
        and st = None and reqs = "[sample_200, sample_404, sample_500, sample_201]"]
    by (simp only: s q list.map simp_thms)
qed

lemma sample_huge_text: "Number_toString sample_builtins (10 ^ 21) = ''1e+21''"
proof -
  have ds: "nat_toString (nat \<bar>1000000000000000000000\<bar>) = ''1000000000000000000000''"
    by (simp add: nat_toString.simps digit_char_def, code_simp)
  have ex: "nat_toString (length ''1000000000000000000000'' - 1) = ''21''"
  proof -
    have "length ''1000000000000000000000'' - 1 = (21 :: nat)"
      by simp
    then show ?thesis
      by (simp only:) (simp add: nat_toString.simps digit_char_def, code_simp)
  qed
  have "exponent_notation 1000000000000000000000 = ''1e+21''"
    unfolding exponent_notation_def Let_def ds ex by simp
  then show ?thesis
    by (simp add: Number_toString_def sample_builtins_def sample_large_text_def)
qed

text \<open>
  Claim C7 as stated fails for a bound of 0: with \<open>maxStatus\<close> 0 the query returns the
  four sample records, none of which has a status of 0 or less. It fails as well for
  a status that is not written in plain digits: a record with status \<open>10 ^ 21\<close> is
  stored as \<^verbatim>\<open>1e+21\<close>, which the cast reads as 1, and the query with \<open>minStatus\<close> 400
  does not return it.
\<close>

theorem status_range_counterexample:
  "queryRequests sample_builtins (empty_query\<lparr>maxStatus_q := Some 0\<rparr>) sample_rows
     = Inr (map (readback sample_builtins) [sample_201, sample_500, sample_404, sample_200])
   \<and> \<not> status sample_201 \<le> 0 \<and> \<not> status sample_500 \<le> 0
   \<and> \<not> status sample_404 \<le> 0 \<and> \<not> status sample_200 \<le> 0
   \<and> queryRequests sample_builtins (empty_query\<lparr>minStatus_q := Some 400\<rparr>)
        (saveRequest sample_builtins sample_huge [])
     = Inr []
   \<and> 400 \<le> status sample_huge"
proof -
  have q: "empty_query\<lparr>maxStatus_q := Some 0\<rparr>
             = empty_query\<lparr>status_q := None, minStatus_q := None, maxStatus_q := Some 0\<rparr>"
    by (simp add: empty_query_def)
  have 1: "queryRequests sample_builtins (empty_query\<lparr>maxStatus_q := Some 0\<rparr>) sample_rows
     = Inr (map (readback sample_builtins) [sample_201, sample_500, sample_404, sample_200])"
    unfolding q
    by (rule sample_status_query
          [where kept = "[sample_200, sample_404, sample_500, sample_201]"])
       (simp_all add: when_status_def in_status_range_def sample_statuses
          timestamp_row_bound_row sample_timestamps)
  have st: "status sample_huge = 10 ^ 21"
    by (simp add: sample_huge_def status_sample_def)
  have "sql_cast_integer ''1e+21'' = 1"
    by (simp add: sql_cast_integer_def sql_space_def int64_def is_digit_def digits_value_def
        digit_value_def)
  moreover have "Number_toString sample_builtins 1000000000000000000000 = ''1e+21''"
    using sample_huge_text by simp
  ultimately have w: "\<not> where_clause sample_builtins (empty_query\<lparr>minStatus_q := Some 400\<rparr>)
                   (bound_row sample_builtins sample_huge)"
    by (simp add: where_clause_def empty_query_def when_string_def when_status_def
        when_number_def not_null_def status_row_bound_row st)
  have 2: "queryRequests sample_builtins (empty_query\<lparr>minStatus_q := Some 400\<rparr>)
        (saveRequest sample_builtins sample_huge []) = Inr []"
    using w queryRequests_plain [of "empty_query\<lparr>minStatus_q := Some 400\<rparr>" sample_builtins
        "[bound_row sample_builtins sample_huge]"]
    by (simp add: saveRequest_def empty_query_def)
  show ?thesis
    using 1 2 by (simp add: sample_statuses st)
qed

lemma queryRequests_limit:
  assumes "0 < n"
  shows "queryRequests B (empty_query\<lparr>limit_q := Some n\<rparr>) db
           = Inr (take (nat n) (map (row_to_request B) (rev (sort_key timestamp_row db))))"
proof -
  have w: "filter (where_clause B (empty_query\<lparr>limit_q := Some n\<rparr>)) db = db"
    by (simp add: where_clause_def empty_query_def when_string_def when_number_def
        when_status_def)
  have o: "order_by (empty_query\<lparr>limit_q := Some n\<rparr>) db = rev (sort_key timestamp_row db)"
    by (simp add: order_by_default empty_query_def)
  have l: "limit_offset (empty_query\<lparr>limit_q := Some n\<rparr>) (rev (sort_key timestamp_row db))
             = take (nat n) (rev (sort_key timestamp_row db))"
    using assms by (simp add: limit_offset_def empty_query_def)
  have u: "urlPattern_q (empty_query\<lparr>limit_q := Some n\<rparr>) = None"
    "offset_q (empty_query\<lparr>limit_q := Some n\<rparr>) = None"
    by (simp_all add: empty_query_def)
  have "queryRequests B (empty_query\<lparr>limit_q := Some n\<rparr>) db
          = Inr (map (row_to_request B) (take (nat n) (rev (sort_key timestamp_row db))))"
    by (simp add: queryRequests_def w o l u truthy_string_def truthy_number_def)
  then show ?thesis by (simp add: take_map)
qed

text \<open>
  Claim C8 (as amended). For every store state the empty query succeeds and returns
  all stored records, none dropped, by timestamp descending: the store applies no
  default limit. A limit applies only when one is given: with an explicit positive
  limit n the result is the first n of those records.
\<close>

theorem empty_query_all_descending:
  "\<exists>rs. queryRequests B empty_query db = Inr rs
      \<and> mset rs = mset (map (row_to_request B) db)
      \<and> length rs = length db
      \<and> sorted (rev (map timestamp rs))
      \<and> (\<forall>n. 0 < n \<longrightarrow>
            queryRequests B (empty_query\<lparr>limit_q := Some n\<rparr>) db = Inr (take (nat n) rs))"
proof -
  let ?rs = "map (row_to_request B) (rev (sort_key timestamp_row db))"
  have "queryRequests B empty_query db = Inr ?rs"
    by (rule queryRequests_empty)
  moreover have "mset ?rs = mset (map (row_to_request B) db)"
    by (rule mset_result)
  moreover have "length ?rs = length db"
    by simp
  moreover have "sorted (rev (map timestamp ?rs))"
    by (rule descending_result)
  moreover have "\<forall>n. 0 < n \<longrightarrow>
            queryRequests B (empty_query\<lparr>limit_q := Some n\<rparr>) db = Inr (take (nat n) ?rs)"
    using queryRequests_limit by blast
  ultimately show ?thesis by blast
qed

theorem empty_query_all_descending_witness:
  "queryRequests sample_builtins empty_query sample_rows
     = Inr (map (readback sample_builtins) [sample_201, sample_500, sample_404, sample_200])
   \<and> queryRequests sample_builtins (empty_query\<lparr>limit_q := Some 2\<rparr>) sample_rows
     = Inr (map (readback sample_builtins) [sample_201, sample_500])"
proof -
  have m: "map (row_to_request sample_builtins)
             (map (bound_row sample_builtins) [sample_201, sample_500, sample_404, sample_200])
           = map (readback sample_builtins) [sample_201, sample_500, sample_404, sample_200]"
    by (simp add: readback_def)
  have 1: "queryRequests sample_builtins empty_query sample_rows
     = Inr (map (readback sample_builtins) [sample_201, sample_500, sample_404, sample_200])"
    by (simp only: queryRequests_empty sample_rows_descending m)
  obtain rs where rs: "queryRequests sample_builtins empty_query sample_rows = Inr rs"
    and lim: "\<forall>n. 0 < n \<longrightarrow>
            queryRequests sample_builtins (empty_query\<lparr>limit_q := Some n\<rparr>) sample_rows
              = Inr (take (nat n) rs)"
    using empty_query_all_descending [of sample_builtins sample_rows] by blast
  have "rs = map (readback sample_builtins) [sample_201, sample_500, sample_404, sample_200]"
    using rs 1 by simp
  then have "queryRequests sample_builtins (empty_query\<lparr>limit_q := Some 2\<rparr>) sample_rows
     = Inr (map (readback sample_builtins) [sample_201, sample_500])"
    using lim by simp
  then show ?thesis using 1 by simp
qed

text \<open>
  Claim C8 as stated fails: no number bounds the length of the result of the empty
  query over all stores.
\<close>

theorem default_limit_counterexample:
  "\<not> (\<exists>N. \<forall>db rs. queryRequests sample_builtins empty_query db = Inr rs \<longrightarrow> length rs \<le> N)"
proof
  assume "\<exists>N. \<forall>db rs. queryRequests sample_builtins empty_query db = Inr rs \<longrightarrow> length rs \<le> N"
  then obtain N where N: "\<forall>db rs. queryRequests sample_builtins empty_query db = Inr rs
                                \<longrightarrow> length rs \<le> N"
    by blast
  let ?db = "replicate (Suc N) (bound_row sample_builtins sample_request)"
  let ?rs = "map (row_to_request sample_builtins) (rev (sort_key timestamp_row ?db))"
  have "queryRequests sample_builtins empty_query ?db = Inr ?rs"
    by (rule queryRequests_empty)
  then have "length ?rs \<le> N" using N by blast
  then show False by simp
qed

lemma where_clause_zero:
  "where_clause B (q\<lparr>status_q := Some (Num 0)\<rparr>) = where_clause B (q\<lparr>status_q := None\<rparr>)"
  "where_clause B (q\<lparr>minResponseSize_q := Some 0\<rparr>) = where_clause B (q\<lparr>minResponseSize_q := None\<rparr>)"
  "where_clause B (q\<lparr>maxResponseSize_q := Some 0\<rparr>) = where_clause B (q\<lparr>maxResponseSize_q := None\<rparr>)"
  "where_clause B (q\<lparr>minStatus_q := Some 0\<rparr>) = where_clause B (q\<lparr>minStatus_q := None\<rparr>)"
  "where_clause B (q\<lparr>maxStatus_q := Some 0\<rparr>) = where_clause B (q\<lparr>maxStatus_q := None\<rparr>)"
  by (simp_all add: where_clause_def fun_eq_iff when_status_def when_number_def)

lemma queryRequests_cong:
  assumes "where_clause B q = where_clause B q'"
      and "urlPattern_q q = urlPattern_q q'"
      and "limit_q q = limit_q q'" and "offset_q q = offset_q q'"
      and "sortBy_q q = sortBy_q q'" and "sortOrder_q q = sortOrder_q q'"
  shows "queryRequests B q db = queryRequests B q' db"
proof -
  have "order_by q = order_by q'"
    unfolding order_by_def fun_eq_iff assms(5) assms(6) by simp
  moreover have "limit_offset q = limit_offset q'"
    unfolding limit_offset_def fun_eq_iff assms(3) assms(4) by simp
  ultimately show ?thesis
    using assms(1,2,3,4) by (simp add: queryRequests_def)
qed

text \<open>
  Claim C10. A query whose exact status is the number 0, or whose minResponseSize,
  maxResponseSize, minStatus or maxStatus is 0, gives the result of the same query with
  that field absent, whatever the other fields are; and the query with status 0 alone
  returns the records of the whole store, of every status.
\<close>

theorem zero_valued_fields_ignored:
  "queryRequests B (q\<lparr>status_q := Some (Num 0)\<rparr>) db = queryRequests B (q\<lparr>status_q := None\<rparr>) db
   \<and> queryRequests B (q\<lparr>minResponseSize_q := Some 0\<rparr>) db
       = queryRequests B (q\<lparr>minResponseSize_q := None\<rparr>) db
   \<and> queryRequests B (q\<lparr>maxResponseSize_q := Some 0\<rparr>) db
       = queryRequests B (q\<lparr>maxResponseSize_q := None\<rparr>) db
   \<and> queryRequests B (q\<lparr>minStatus_q := Some 0\<rparr>) db
       = queryRequests B (q\<lparr>minStatus_q := None\<rparr>) db
   \<and> queryRequests B (q\<lparr>maxStatus_q := Some 0\<rparr>) db
       = queryRequests B (q\<lparr>maxStatus_q := None\<rparr>) db
   \<and> queryRequests B (empty_query\<lparr>status_q := Some (Num 0)\<rparr>) db
       = Inr (map (row_to_request B) (rev (sort_key timestamp_row db)))"
proof -
  have e: "empty_query\<lparr>status_q := None\<rparr> = empty_query"
    by (simp add: empty_query_def)
  have 1: "queryRequests B (q\<lparr>status_q := Some (Num 0)\<rparr>) db
             = queryRequests B (q\<lparr>status_q := None\<rparr>) db" for q
    by (rule queryRequests_cong) (simp_all add: where_clause_zero)
  have 2: "queryRequests B (q\<lparr>minResponseSize_q := Some 0\<rparr>) db
       = queryRequests B (q\<lparr>minResponseSize_q := None\<rparr>) db"
    by (rule queryRequests_cong) (simp_all add: where_clause_zero)
  have 3: "queryRequests B (q\<lparr>maxResponseSize_q := Some 0\<rparr>) db
       = queryRequests B (q\<lparr>maxResponseSize_q := None\<rparr>) db"
    by (rule queryRequests_cong) (simp_all add: where_clause_zero)
  have 4: "queryRequests B (q\<lparr>minStatus_q := Some 0\<rparr>) db
       = queryRequests B (q\<lparr>minStatus_q := None\<rparr>) db"
    by (rule queryRequests_cong) (simp_all add: where_clause_zero)
  have 5: "queryRequests B (q\<lparr>maxStatus_q := Some 0\<rparr>) db
       = queryRequests B (q\<lparr>maxStatus_q := None\<rparr>) db"
    by (rule queryRequests_cong) (simp_all add: where_clause_zero)
  have 6: "queryRequests B (empty_query\<lparr>status_q := Some (Num 0)\<rparr>) db
       = Inr (map (row_to_request B) (rev (sort_key timestamp_row db)))"
    using 1 [of empty_query] by (simp only: e queryRequests_empty)
  show ?thesis
    using 1 [of q] 2 3 4 5 6 by (simp only: simp_thms)
qed

theorem zero_valued_fields_ignored_witness:
  "queryRequests sample_builtins (empty_query\<lparr>status_q := Some (Num 0)\<rparr>) sample_rows
     = Inr (map (readback sample_builtins) [sample_201, sample_500, sample_404, sample_200])
   \<and> queryRequests sample_builtins (empty_query\<lparr>maxStatus_q := Some 0\<rparr>) sample_rows
     = Inr (map (readback sample_builtins) [sample_201, sample_500, sample_404, sample_200])"
proof -
  have m: "map (row_to_request sample_builtins)
             (map (bound_row sample_builtins) [sample_201, sample_500, sample_404, sample_200])
           = map (readback sample_builtins) [sample_201, sample_500, sample_404, sample_200]"
    by (simp add: readback_def)
  have e: "empty_query\<lparr>maxStatus_q := None\<rparr> = empty_query"
    by (simp add: empty_query_def)
  have a: "queryRequests sample_builtins (empty_query\<lparr>status_q := Some (Num 0)\<rparr>) sample_rows
             = Inr (map (row_to_request sample_builtins) (rev (sort_key timestamp_row sample_rows)))"
    and b: "queryRequests sample_builtins (empty_query\<lparr>maxStatus_q := Some 0\<rparr>) sample_rows
             = queryRequests sample_builtins (empty_query\<lparr>maxStatus_q := None\<rparr>) sample_rows"
    using zero_valued_fields_ignored [of sample_builtins empty_query sample_rows] by blast+
  have "queryRequests sample_builtins (empty_query\<lparr>status_q := Some (Num 0)\<rparr>) sample_rows
     = Inr (map (readback sample_builtins) [sample_201, sample_500, sample_404, sample_200])"
    by (simp only: a sample_rows_descending m)
  moreover have "queryRequests sample_builtins (empty_query\<lparr>maxStatus_q := Some 0\<rparr>) sample_rows
     = Inr (map (readback sample_builtins) [sample_201, sample_500, sample_404, sample_200])"
    by (simp only: b e queryRequests_empty sample_rows_descending m)
  ultimately show ?thesis by (simp only: simp_thms)
qed

end
